theory Spec2Isabelle
  imports Main "HOL-Library.Word"
begin

unbundle bit_operations_syntax

section \<open>The token streaming contract (SPL/contracts/stream copy.clar)\<close>

subsection \<open>Values of the language\<close>

text \<open>
  A Clarity \<open>uint\<close> is an unsigned 128-bit integer. The arithmetic of the language does
  not wrap: an addition or multiplication that leaves the range, and a subtraction that
  would go below zero, abort the whole transaction with a runtime error. A runtime error
  is not one of the contract's \<open>(err uN)\<close> responses.
\<close>

type_synonym uint = "128 word"
type_synonym byte = "8 word"
type_synonym buff = "byte list"

text \<open>
  A principal is a standard principal (version byte, 20-byte hash) or a contract
  principal (the issuer's standard principal and the contract's name).
\<close>

datatype principal =
    Standard byte "160 word"
  | Contract byte "160 word" buff

datatype runtime_error = ArithmeticOverflow | ArithmeticUnderflow

datatype 'a response = Ok 'a | Err uint | RuntimeAbort runtime_error

fun rbind :: "'a response \<Rightarrow> ('a \<Rightarrow> 'b response) \<Rightarrow> 'b response" where
  "rbind (Ok v) f = f v"
| "rbind (Err c) f = Err c"
| "rbind (RuntimeAbort r) f = RuntimeAbort r"

definition uint_add :: "uint \<Rightarrow> uint \<Rightarrow> uint response" where
  "uint_add a b =
     (if unat a + unat b < 2 ^ 128 then Ok (a + b) else RuntimeAbort ArithmeticOverflow)"

definition uint_sub :: "uint \<Rightarrow> uint \<Rightarrow> uint response" where
  "uint_sub a b = (if b \<le> a then Ok (a - b) else RuntimeAbort ArithmeticUnderflow)"

definition uint_mul :: "uint \<Rightarrow> uint \<Rightarrow> uint response" where
  "uint_mul a b =
     (if unat a * unat b < 2 ^ 128 then Ok (a * b) else RuntimeAbort ArithmeticOverflow)"

subsection \<open>Errors, data variable and map of the contract\<close>

definition ERR_UNAUTHORIZED :: "'a response" where
  "ERR_UNAUTHORIZED = Err 0"

definition ERR_INVALID_SIGNATURE :: "'a response" where
  "ERR_INVALID_SIGNATURE = Err 1"

definition ERR_STREAM_STILL_ACTIVE :: "'a response" where
  "ERR_STREAM_STILL_ACTIVE = Err 2"

definition ERR_INVALID_STREAM_ID :: "'a response" where
  "ERR_INVALID_STREAM_ID = Err 3"

definition ERR_INVALID_AMOUNT :: "'a response" where
  "ERR_INVALID_AMOUNT = Err 4"

definition ERR_INVALID_TIMEFRAME :: "'a response" where
  "ERR_INVALID_TIMEFRAME = Err 5"

record timeframe =
  start_block :: uint
  stop_block :: uint

record stream =
  sender :: principal
  recipient :: principal
  balance :: uint
  withdrawn_balance :: uint
  payment_per_block :: uint
  timeframe :: timeframe

text \<open>
  The state a call works on: the data variable \<open>latest-stream-id\<close>, the map
  \<open>streams\<close>, and the STX balances of the accounts, which \<open>stx-transfer?\<close> moves.
\<close>

record state =
  latest_stream_id :: uint
  streams :: "uint \<rightharpoonup> stream"
  stx :: "principal \<Rightarrow> nat"

text \<open>
  What a call reads from its context: \<open>tx-sender\<close>, \<open>contract-caller\<close>,
  \<open>stacks-block-height\<close>, and the principal of the contract itself, which is what
  \<open>(as-contract tx-sender)\<close> evaluates to.
\<close>

record env =
  tx_sender :: principal
  contract_caller :: principal
  stacks_block_height :: uint
  contract_principal :: principal

text \<open>
  The built-in \<open>stx-transfer?\<close>. Its first argument here is the \<open>tx-sender\<close> in force
  where the transfer is evaluated. It answers \<open>(err u3)\<close> for an amount of zero,
  \<open>(err u2)\<close> when sender and recipient are the same principal, \<open>(err u4)\<close> when the
  sender is not the current \<open>tx-sender\<close>, \<open>(err u1)\<close> when the sender's balance is too
  small, and otherwise moves the amount.
\<close>

definition stx_transfer ::
  "principal \<Rightarrow> uint \<Rightarrow> principal \<Rightarrow> principal \<Rightarrow> (principal \<Rightarrow> nat)
     \<Rightarrow> uint + (principal \<Rightarrow> nat)" where
  "stx_transfer cur amount src dst L =
     (if amount = 0 then Inl 3
      else if src = dst then Inl 2
      else if src \<noteq> cur then Inl 4
      else if L src < unat amount then Inl 1
      else Inr (L(src := L src - unat amount, dst := L dst + unat amount)))"

text \<open>
  A public function that does not answer \<open>(ok ...)\<close> has every change it made undone.
  The bodies below return the state as it is where they stop; \<open>commit\<close> is the
  roll-back the runtime applies.
\<close>

definition commit :: "state \<Rightarrow> 'a response \<times> state \<Rightarrow> 'a response \<times> state" where
  "commit st0 r = (case fst r of Ok v \<Rightarrow> r | _ \<Rightarrow> (fst r, st0))"

subsection \<open>Creating and refuelling a stream\<close>

definition stream_to_body ::
  "env \<Rightarrow> state \<Rightarrow> principal \<Rightarrow> uint \<Rightarrow> timeframe \<Rightarrow> uint \<Rightarrow> uint response \<times> state" where
  "stream_to_body e st rcp initial_balance tf ppb =
     (let stream = \<lparr> sender = contract_caller e, recipient = rcp,
                     balance = initial_balance, withdrawn_balance = 0,
                     payment_per_block = ppb, timeframe = tf \<rparr>;
          current_stream_id = latest_stream_id st
      in if \<not> (stop_block (timeframe stream) > start_block (timeframe stream))
         then (ERR_INVALID_TIMEFRAME, st)
         else if \<not> (initial_balance > 0) then (ERR_INVALID_AMOUNT, st)
         else (case stx_transfer (tx_sender e) initial_balance (contract_caller e)
                      (contract_principal e) (stx st) of
                 Inl c \<Rightarrow> (Err c, st)
               | Inr L \<Rightarrow>
                   (let st1 = st\<lparr> stx := L \<rparr>;
                        st2 = st1\<lparr> streams := (streams st1)(current_stream_id \<mapsto> stream) \<rparr>
                    in (case uint_add current_stream_id 1 of
                          Ok n \<Rightarrow> (Ok current_stream_id, st2\<lparr> latest_stream_id := n \<rparr>)
                        | Err c \<Rightarrow> (Err c, st2)
                        | RuntimeAbort r \<Rightarrow> (RuntimeAbort r, st2)))))"

definition stream_to ::
  "env \<Rightarrow> state \<Rightarrow> principal \<Rightarrow> uint \<Rightarrow> timeframe \<Rightarrow> uint \<Rightarrow> uint response \<times> state" where
  "stream_to e st rcp initial_balance tf ppb =
     commit st (stream_to_body e st rcp initial_balance tf ppb)"

definition refuel_body :: "env \<Rightarrow> state \<Rightarrow> uint \<Rightarrow> uint \<Rightarrow> uint response \<times> state" where
  "refuel_body e st stream_id amount =
     (case streams st stream_id of
        None \<Rightarrow> (ERR_INVALID_STREAM_ID, st)
      | Some stream \<Rightarrow>
          if contract_caller e \<noteq> sender stream then (ERR_UNAUTHORIZED, st)
          else if \<not> (amount > 0) then (ERR_INVALID_AMOUNT, st)
          else (case stx_transfer (tx_sender e) amount (contract_caller e)
                       (contract_principal e) (stx st) of
                  Inl c \<Rightarrow> (Err c, st)
                | Inr L \<Rightarrow>
                    (let st1 = st\<lparr> stx := L \<rparr>
                     in (case uint_add (balance stream) amount of
                           Ok b \<Rightarrow>
                             (Ok amount,
                              st1\<lparr> streams := (streams st1)(stream_id \<mapsto> stream\<lparr> balance := b \<rparr>) \<rparr>)
                         | Err c \<Rightarrow> (Err c, st1)
                         | RuntimeAbort r \<Rightarrow> (RuntimeAbort r, st1)))))"

definition refuel :: "env \<Rightarrow> state \<Rightarrow> uint \<Rightarrow> uint \<Rightarrow> uint response \<times> state" where
  "refuel e st stream_id amount = commit st (refuel_body e st stream_id amount)"

subsection \<open>The vesting calculator\<close>

text \<open>
  Both read-only functions read the global \<open>stacks-block-height\<close> and nothing else of
  the context; it is their first argument here.
\<close>

definition calculate_block_delta :: "uint \<Rightarrow> timeframe \<Rightarrow> uint response" where
  "calculate_block_delta height tf =
     (let start = start_block tf;
          stop = stop_block tf;
          delta = (if height \<le> start then Ok 0
                   else if height < stop then uint_sub height start
                   else uint_sub stop start)
      in delta)"

definition balance_of :: "uint \<Rightarrow> state \<Rightarrow> uint \<Rightarrow> principal \<Rightarrow> uint response" where
  "balance_of height st stream_id who =
     (case streams st stream_id of
        None \<Rightarrow> Ok 0
      | Some stream \<Rightarrow>
          rbind (calculate_block_delta height (timeframe stream)) (\<lambda>block_delta.
          rbind (uint_mul block_delta (payment_per_block stream)) (\<lambda>recipient_balance.
            if who = recipient stream
            then uint_sub recipient_balance (withdrawn_balance stream)
            else if who = sender stream
                 then uint_sub (balance stream) recipient_balance
                 else Ok 0)))"

subsection \<open>Withdrawing and refunding\<close>

definition withdraw_body :: "env \<Rightarrow> state \<Rightarrow> uint \<Rightarrow> uint response \<times> state" where
  "withdraw_body e st stream_id =
     (case streams st stream_id of
        None \<Rightarrow> (ERR_INVALID_STREAM_ID, st)
      | Some stream \<Rightarrow>
          (case balance_of (stacks_block_height e) st stream_id (contract_caller e) of
             Err c \<Rightarrow> (Err c, st)
           | RuntimeAbort r \<Rightarrow> (RuntimeAbort r, st)
           | Ok bal \<Rightarrow>
               if contract_caller e \<noteq> recipient stream then (ERR_UNAUTHORIZED, st)
               else (case uint_add (withdrawn_balance stream) bal of
                       Err c \<Rightarrow> (Err c, st)
                     | RuntimeAbort r \<Rightarrow> (RuntimeAbort r, st)
                     | Ok w \<Rightarrow>
                         (let st1 = st\<lparr> streams :=
                                (streams st)(stream_id \<mapsto> stream\<lparr> withdrawn_balance := w \<rparr>) \<rparr>
                          in (case stx_transfer (contract_principal e) bal
                                     (contract_principal e) (recipient stream) (stx st1) of
                                Inl c \<Rightarrow> (Err c, st1)
                              | Inr L \<Rightarrow> (Ok bal, st1\<lparr> stx := L \<rparr>))))))"

definition withdraw :: "env \<Rightarrow> state \<Rightarrow> uint \<Rightarrow> uint response \<times> state" where
  "withdraw e st stream_id = commit st (withdraw_body e st stream_id)"

definition refund_body :: "env \<Rightarrow> state \<Rightarrow> uint \<Rightarrow> uint response \<times> state" where
  "refund_body e st stream_id =
     (case streams st stream_id of
        None \<Rightarrow> (ERR_INVALID_STREAM_ID, st)
      | Some stream \<Rightarrow>
          (case balance_of (stacks_block_height e) st stream_id (sender stream) of
             Err c \<Rightarrow> (Err c, st)
           | RuntimeAbort r \<Rightarrow> (RuntimeAbort r, st)
           | Ok bal \<Rightarrow>
               if contract_caller e \<noteq> sender stream then (ERR_UNAUTHORIZED, st)
               else if \<not> (stop_block (timeframe stream) < stacks_block_height e)
               then (ERR_STREAM_STILL_ACTIVE, st)
               else (case uint_sub (balance stream) bal of
                       Err c \<Rightarrow> (Err c, st)
                     | RuntimeAbort r \<Rightarrow> (RuntimeAbort r, st)
                     | Ok b \<Rightarrow>
                         (let st1 = st\<lparr> streams :=
                                (streams st)(stream_id \<mapsto> stream\<lparr> balance := b \<rparr>) \<rparr>
                          in (case stx_transfer (contract_principal e) bal
                                     (contract_principal e) (sender stream) (stx st1) of
                                Inl c \<Rightarrow> (Err c, st1)
                              | Inr L \<Rightarrow> (Ok bal, st1\<lparr> stx := L \<rparr>))))))"

definition refund :: "env \<Rightarrow> state \<Rightarrow> uint \<Rightarrow> uint response \<times> state" where
  "refund e st stream_id = commit st (refund_body e st stream_id)"

subsection \<open>The consent digest and the signature check\<close>

text \<open>
  The built-in \<open>to-consensus-buff?\<close> writes a value in the consensus serialisation:
  a type byte, then for a \<open>uint\<close> its 16 bytes, most significant first; for a
  standard principal the version byte and the 20 bytes of the hash; for a contract
  principal the same followed by the length byte and the bytes of the name; for a tuple
  the number of fields in 4 bytes and then, in the order of the field names, each name
  with its length byte in front and the field's value. For the values serialised here
  the result always fits a buffer, so \<open>unwrap-panic\<close> never fires.
\<close>

definition be_bytes :: "nat \<Rightarrow> 'a::len word \<Rightarrow> buff" where
  "be_bytes n w = map (\<lambda>i. ucast (drop_bit (8 * i) w)) (rev [0..<n])"

definition clarity_name :: "string \<Rightarrow> buff" where
  "clarity_name s = of_nat (length s) # map of_char s"

definition to_consensus_buff_uint :: "uint \<Rightarrow> buff" where
  "to_consensus_buff_uint n = 1 # be_bytes 16 n"

fun to_consensus_buff_principal :: "principal \<Rightarrow> buff" where
  "to_consensus_buff_principal (Standard v h) = 5 # v # be_bytes 20 h"
| "to_consensus_buff_principal (Contract v h name) =
     6 # v # be_bytes 20 h @ of_nat (length name) # name"

definition to_consensus_buff_timeframe :: "timeframe \<Rightarrow> buff" where
  "to_consensus_buff_timeframe tf =
     12 # be_bytes 4 (2 :: 32 word)
       @ clarity_name ''start-block'' @ to_consensus_buff_uint (start_block tf)
       @ clarity_name ''stop-block'' @ to_consensus_buff_uint (stop_block tf)"

definition to_consensus_buff_stream :: "stream \<Rightarrow> buff" where
  "to_consensus_buff_stream s =
     12 # be_bytes 4 (6 :: 32 word)
       @ clarity_name ''balance'' @ to_consensus_buff_uint (balance s)
       @ clarity_name ''payment-per-block'' @ to_consensus_buff_uint (payment_per_block s)
       @ clarity_name ''recipient'' @ to_consensus_buff_principal (recipient s)
       @ clarity_name ''sender'' @ to_consensus_buff_principal (sender s)
       @ clarity_name ''timeframe'' @ to_consensus_buff_timeframe (timeframe s)
       @ clarity_name ''withdrawn-balance'' @ to_consensus_buff_uint (withdrawn_balance s)"

text \<open>
  The hash function and the two signature built-ins are primitives of the chain. The
  contract is modelled over any three such functions: \<open>sha256\<close> maps a buffer to a
  digest, \<open>secp256k1-recover?\<close> answers a public key or an error code, and
  \<open>principal-of?\<close> answers the principal of a public key or an error code.
\<close>

record crypto =
  sha256 :: "buff \<Rightarrow> buff"
  secp256k1_recover :: "buff \<Rightarrow> buff \<Rightarrow> uint + buff"
  principal_of :: "buff \<Rightarrow> uint + principal"

text \<open>The buffer \<open>msg\<close> that \<open>hash-stream\<close> builds and hashes.\<close>

definition hash_stream_msg :: "stream \<Rightarrow> uint \<Rightarrow> timeframe \<Rightarrow> buff" where
  "hash_stream_msg stream new_payment_per_block new_timeframe =
     (to_consensus_buff_stream stream @ to_consensus_buff_uint new_payment_per_block)
       @ to_consensus_buff_timeframe new_timeframe"

text \<open>
  For an unknown stream the function answers \<open>(sha256 0)\<close>: the hash of the 16 bytes
  of the integer zero.
\<close>

definition hash_stream :: "crypto \<Rightarrow> state \<Rightarrow> uint \<Rightarrow> uint \<Rightarrow> timeframe \<Rightarrow> buff" where
  "hash_stream K st stream_id new_payment_per_block new_timeframe =
     (case streams st stream_id of
        None \<Rightarrow> sha256 K (replicate 16 0)
      | Some stream \<Rightarrow>
          sha256 K (hash_stream_msg stream new_payment_per_block new_timeframe))"

definition validate_signature :: "crypto \<Rightarrow> buff \<Rightarrow> buff \<Rightarrow> principal \<Rightarrow> bool" where
  "validate_signature K hash signature signer =
     (case secp256k1_recover K hash signature of
        Inl c \<Rightarrow> False
      | Inr pubkey \<Rightarrow> principal_of K pubkey = Inr signer)"

subsection \<open>Updating rate and timeframe with the consent of both parties\<close>

definition update_details_body ::
  "crypto \<Rightarrow> env \<Rightarrow> state \<Rightarrow> uint \<Rightarrow> uint \<Rightarrow> timeframe \<Rightarrow> principal \<Rightarrow> buff
     \<Rightarrow> bool response \<times> state" where
  "update_details_body K e st stream_id ppb tf signer signature =
     (case streams st stream_id of
        None \<Rightarrow> (ERR_INVALID_STREAM_ID, st)
      | Some stream \<Rightarrow>
          if \<not> validate_signature K (hash_stream K st stream_id ppb tf) signature signer
          then (ERR_INVALID_SIGNATURE, st)
          else if \<not> ((sender stream = contract_caller e \<and> recipient stream = signer)
                     \<or> (sender stream = signer \<and> recipient stream = contract_caller e))
          then (ERR_UNAUTHORIZED, st)
          else (Ok True,
                st\<lparr> streams := (streams st)(stream_id \<mapsto>
                       stream\<lparr> payment_per_block := ppb, timeframe := tf \<rparr>) \<rparr>))"

definition update_details ::
  "crypto \<Rightarrow> env \<Rightarrow> state \<Rightarrow> uint \<Rightarrow> uint \<Rightarrow> timeframe \<Rightarrow> principal \<Rightarrow> buff
     \<Rightarrow> bool response \<times> state" where
  "update_details K e st stream_id ppb tf signer signature =
     commit st (update_details_body K e st stream_id ppb tf signer signature)"

subsection \<open>Sequences of transactions\<close>

text \<open>
  The chain runs one call after the other, each against the state the previous one
  left, and the block height only grows. A transaction carries its \<open>tx-sender\<close> and
  the \<open>contract-caller\<close> the contract sees; \<open>Mine n\<close> lets \<open>n\<close> blocks pass.
\<close>

datatype call =
    Stream_to principal uint timeframe uint
  | Refuel uint uint
  | Withdraw uint
  | Refund uint
  | Update_details uint uint timeframe principal buff

datatype event = Transaction principal principal call | Mine uint

fun apply_call :: "crypto \<Rightarrow> env \<Rightarrow> state \<Rightarrow> call \<Rightarrow> state" where
  "apply_call K e st (Stream_to rcp initial_balance tf ppb) =
     snd (stream_to e st rcp initial_balance tf ppb)"
| "apply_call K e st (Refuel stream_id amount) = snd (refuel e st stream_id amount)"
| "apply_call K e st (Withdraw stream_id) = snd (withdraw e st stream_id)"
| "apply_call K e st (Refund stream_id) = snd (refund e st stream_id)"
| "apply_call K e st (Update_details stream_id ppb tf signer signature) =
     snd (update_details K e st stream_id ppb tf signer signature)"

fun step :: "crypto \<Rightarrow> principal \<Rightarrow> uint \<times> state \<Rightarrow> event \<Rightarrow> uint \<times> state" where
  "step K self (h, st) (Transaction origin caller c) =
     (h, apply_call K \<lparr> tx_sender = origin, contract_caller = caller,
                        stacks_block_height = h, contract_principal = self \<rparr> st c)"
| "step K self (h, st) (Mine n) = ((if unat h + unat n < 2 ^ 128 then h + n else h), st)"

definition run :: "crypto \<Rightarrow> principal \<Rightarrow> uint \<times> state \<Rightarrow> event list \<Rightarrow> uint \<times> state" where
  "run K self c evs = foldl (step K self) c evs"

text \<open>The contract as deployed: no stream, the counter at zero.\<close>

definition deployed :: "(principal \<Rightarrow> nat) \<Rightarrow> state" where
  "deployed L = \<lparr> latest_stream_id = 0, streams = Map.empty, stx = L \<rparr>"

fun is_update_details :: "event \<Rightarrow> bool" where
  "is_update_details (Transaction origin caller (Update_details i p tf sg sig)) = True"
| "is_update_details ev = False"

subsection \<open>Properties of a stream record\<close>

text \<open>
  What has been withdrawn is covered by what has vested at the given height: the block
  delta is computed without a runtime error and \<open>withdrawn-balance\<close> is at most the
  delta times the rate.
\<close>

definition vested_covers_withdrawn :: "uint \<Rightarrow> stream \<Rightarrow> bool" where
  "vested_covers_withdrawn height s =
     (case calculate_block_delta height (timeframe s) of
        Ok d \<Rightarrow> unat (withdrawn_balance s) \<le> unat d * unat (payment_per_block s)
      | Err c \<Rightarrow> False
      | RuntimeAbort r \<Rightarrow> False)"

text \<open>
  Caller and signer are the two parties of the stream, in one order or the other: the
  condition of the second \<open>asserts!\<close> of \<open>update-details\<close>.
\<close>

definition dual_consent :: "stream \<Rightarrow> principal \<Rightarrow> principal \<Rightarrow> bool" where
  "dual_consent s caller signer =
     ((sender s = caller \<and> recipient s = signer) \<or> (sender s = signer \<and> recipient s = caller))"

text \<open>The name of a contract principal has at most 128 bytes.\<close>

fun well_formed_principal :: "principal \<Rightarrow> bool" where
  "well_formed_principal (Standard v h) = True"
| "well_formed_principal (Contract v h name) = (length name \<le> 128)"

definition well_formed_stream :: "stream \<Rightarrow> bool" where
  "well_formed_stream s = (well_formed_principal (sender s) \<and> well_formed_principal (recipient s))"

subsection \<open>Invariants of the map of streams\<close>

text \<open>The identifiers in use are exactly those below the counter.\<close>

definition ids_dense :: "state \<Rightarrow> bool" where
  "ids_dense st = (\<forall>i. (streams st i \<noteq> None) = (i < latest_stream_id st))"

text \<open>
  Every stream has a timeframe that stops after it starts, and what has been withdrawn
  from it is covered by what has vested at the given height.
\<close>

definition schedule_sound :: "uint \<Rightarrow> state \<Rightarrow> bool" where
  "schedule_sound h st =
     (\<forall>i s. streams st i = Some s \<longrightarrow>
        start_block (timeframe s) < stop_block (timeframe s) \<and> vested_covers_withdrawn h s)"

subsection \<open>Concrete accounts and scenarios\<close>

text \<open>
  Three wallets and the contract's own principal, as in the contract's test suite, and
  a ledger in which the first wallet holds 100 units and the others nothing.
\<close>

definition wallet_1 :: principal where "wallet_1 = Standard 26 1"
definition wallet_2 :: principal where "wallet_2 = Standard 26 2"
definition wallet_3 :: principal where "wallet_3 = Standard 26 3"

definition stream_contract :: principal where
  "stream_contract = Contract 26 1 (map of_char ''stream'')"

definition call_env :: "principal \<Rightarrow> uint \<Rightarrow> env" where
  "call_env who h = \<lparr> tx_sender = who, contract_caller = who,
                       stacks_block_height = h, contract_principal = stream_contract \<rparr>"

definition genesis :: state where
  "genesis = deployed ((\<lambda>p. 0)(wallet_1 := 100))"

definition tf_0_5 :: timeframe where
  "tf_0_5 = \<lparr> start_block = 0, stop_block = 5 \<rparr>"

text \<open>
  A stand-in for the chain's three primitives, to run scenarios in which a signature is
  checked. Its digest has 32 bytes, a public key 33 and a signature 65, as the types of
  the built-ins require: the digest is a running sum over the message, the signature of
  key \<open>k\<close> over a digest is \<open>k\<close>, the digest and 32 zero bytes, and key \<open>k\<close> belongs to the
  standard principal with hash \<open>k\<close>. No general theorem below depends on it.
\<close>

definition stub_sha256 :: "buff \<Rightarrow> buff" where
  "stub_sha256 m = be_bytes 32 (foldl (\<lambda>acc b. acc * 257 + ucast b) (0 :: 256 word) m)"

definition stub_sign :: "byte \<Rightarrow> buff \<Rightarrow> buff" where
  "stub_sign k h = k # h @ replicate 32 0"

definition stub_crypto :: crypto where
  "stub_crypto =
     \<lparr> sha256 = stub_sha256,
       secp256k1_recover =
         (\<lambda>h sig. case sig of
                    [] \<Rightarrow> Inl 2
                  | k # rest \<Rightarrow> if length rest = 64 \<and> take 32 rest = h
                                then Inr (k # replicate 32 0) else Inl 1),
       principal_of =
         (\<lambda>pk. case pk of
                  [] \<Rightarrow> Inl 1
                | k # rest \<Rightarrow> if length rest = 32 then Inr (Standard 26 (ucast k)) else Inl 1) \<rparr>"

text \<open>Scenario A: the first wallet streams 5 units to the second over blocks 0 to 5.\<close>

definition scenario_A :: state where
  "scenario_A =
     \<lparr> latest_stream_id = 1,
       streams = [0 \<mapsto> \<lparr> sender = wallet_1, recipient = wallet_2, balance = 5,
                        withdrawn_balance = 0, payment_per_block = 1, timeframe = tf_0_5 \<rparr>],
       stx = (\<lambda>p. 0)(wallet_1 := 95, stream_contract := 5) \<rparr>"

text \<open>Scenario D: at height 4 the recipient has withdrawn the 4 units vested so far.\<close>

definition scenario_D :: state where
  "scenario_D =
     \<lparr> latest_stream_id = 1,
       streams = [0 \<mapsto> \<lparr> sender = wallet_1, recipient = wallet_2, balance = 5,
                        withdrawn_balance = 4, payment_per_block = 1, timeframe = tf_0_5 \<rparr>],
       stx = (\<lambda>p. 0)(wallet_1 := 95, stream_contract := 1, wallet_2 := 4) \<rparr>"

definition trace_D :: "event list" where
  "trace_D = [Transaction wallet_1 wallet_1 (Stream_to wallet_2 5 tf_0_5 1), Mine 2,
              Transaction wallet_2 wallet_2 (Withdraw 0)]"

text \<open>
  After scenario D the two parties agree to lower the rate to 0: the sender signs the
  proposal over the record as it stands, the recipient submits it.
\<close>

definition cut_signature :: buff where
  "cut_signature = stub_sign 1 (hash_stream stub_crypto scenario_D 0 0 tf_0_5)"

definition trace_cut :: "event list" where
  "trace_cut = trace_D @
     [Transaction wallet_2 wallet_2 (Update_details 0 0 tf_0_5 wallet_1 cut_signature)]"

definition scenario_cut :: state where
  "scenario_cut =
     \<lparr> latest_stream_id = 1,
       streams = [0 \<mapsto> \<lparr> sender = wallet_1, recipient = wallet_2, balance = 5,
                        withdrawn_balance = 4, payment_per_block = 0, timeframe = tf_0_5 \<rparr>],
       stx = (\<lambda>p. 0)(wallet_1 := 95, stream_contract := 1, wallet_2 := 4) \<rparr>"

text \<open>
  Scenario F: over the record of scenario A the sender signs the proposal of rate 1 and
  blocks 0 to 4. A second proposal has a timeframe that stops before it starts.
\<close>

definition tf_0_4 :: timeframe where
  "tf_0_4 = \<lparr> start_block = 0, stop_block = 4 \<rparr>"

definition scenario_F_signature :: buff where
  "scenario_F_signature = stub_sign 1 (hash_stream stub_crypto scenario_A 0 1 tf_0_4)"

definition tf_7_3 :: timeframe where
  "tf_7_3 = \<lparr> start_block = 7, stop_block = 3 \<rparr>"

definition backwards_signature :: buff where
  "backwards_signature = stub_sign 1 (hash_stream stub_crypto scenario_A 0 1 tf_7_3)"

text \<open>Scenario B: the sender has refuelled the stream of scenario A with 5 more units.\<close>

definition scenario_B :: state where
  "scenario_B =
     \<lparr> latest_stream_id = 1,
       streams = [0 \<mapsto> \<lparr> sender = wallet_1, recipient = wallet_2, balance = 10,
                        withdrawn_balance = 0, payment_per_block = 1, timeframe = tf_0_5 \<rparr>],
       stx = (\<lambda>p. 0)(wallet_1 := 90, stream_contract := 10) \<rparr>"

text \<open>
  A stream whose rate outruns its funds: 5 units locked, 2 units vesting per block over
  blocks 0 to 5. And a stream that the first wallet opens to itself, with 20 units.
\<close>

definition scenario_underfunded :: state where
  "scenario_underfunded =
     \<lparr> latest_stream_id = 1,
       streams = [0 \<mapsto> \<lparr> sender = wallet_1, recipient = wallet_2, balance = 5,
                        withdrawn_balance = 0, payment_per_block = 2, timeframe = tf_0_5 \<rparr>],
       stx = (\<lambda>p. 0)(wallet_1 := 95, stream_contract := 5) \<rparr>"

definition scenario_self :: state where
  "scenario_self =
     \<lparr> latest_stream_id = 1,
       streams = [0 \<mapsto> \<lparr> sender = wallet_1, recipient = wallet_1, balance = 20,
                        withdrawn_balance = 0, payment_per_block = 1, timeframe = tf_0_5 \<rparr>],
       stx = (\<lambda>p. 0)(wallet_1 := 80, stream_contract := 20) \<rparr>"

text \<open>
  Scenario E: after scenario B the recipient has withdrawn the 5 units of the full
  timeframe; past the stop block the sender takes back the other 5.
\<close>

definition scenario_E :: state where
  "scenario_E =
     \<lparr> latest_stream_id = 1,
       streams = [0 \<mapsto> \<lparr> sender = wallet_1, recipient = wallet_2, balance = 10,
                        withdrawn_balance = 5, payment_per_block = 1, timeframe = tf_0_5 \<rparr>],
       stx = (\<lambda>p. 0)(wallet_1 := 90, stream_contract := 5, wallet_2 := 5) \<rparr>"

definition scenario_E_refunded :: state where
  "scenario_E_refunded =
     \<lparr> latest_stream_id = 1,
       streams = [0 \<mapsto> \<lparr> sender = wallet_1, recipient = wallet_2, balance = 5,
                        withdrawn_balance = 5, payment_per_block = 1, timeframe = tf_0_5 \<rparr>],
       stx = (\<lambda>p. 0)(wallet_1 := 95, stream_contract := 0, wallet_2 := 5) \<rparr>"

text \<open>
  Twin streams: the first wallet opens the stream of scenario A twice. Over the record
  of stream 0 it signs the proposal of rate 2 and blocks 0 to 5.
\<close>

definition scenario_twins :: state where
  "scenario_twins =
     \<lparr> latest_stream_id = 2,
       streams = [0 \<mapsto> \<lparr> sender = wallet_1, recipient = wallet_2, balance = 5,
                        withdrawn_balance = 0, payment_per_block = 1, timeframe = tf_0_5 \<rparr>,
                  1 \<mapsto> \<lparr> sender = wallet_1, recipient = wallet_2, balance = 5,
                        withdrawn_balance = 0, payment_per_block = 1, timeframe = tf_0_5 \<rparr>],
       stx = (\<lambda>p. 0)(wallet_1 := 90, stream_contract := 10) \<rparr>"

definition twin_signature :: buff where
  "twin_signature = stub_sign 1 (hash_stream stub_crypto scenario_twins 0 2 tf_0_5)"

text \<open>
  Updates that leave or restore the record of scenario A: one that reinstalls the stored
  rate and timeframe, and a pair that raises the rate to 2 and lowers it to 1 again.
\<close>

definition reinstall_signature :: buff where
  "reinstall_signature = stub_sign 1 (hash_stream stub_crypto scenario_A 0 1 tf_0_5)"

definition raise_signature :: buff where
  "raise_signature = stub_sign 1 (hash_stream stub_crypto scenario_A 0 2 tf_0_5)"

definition scenario_raised :: state where
  "scenario_raised =
     \<lparr> latest_stream_id = 1,
       streams = [0 \<mapsto> \<lparr> sender = wallet_1, recipient = wallet_2, balance = 5,
                        withdrawn_balance = 0, payment_per_block = 2, timeframe = tf_0_5 \<rparr>],
       stx = (\<lambda>p. 0)(wallet_1 := 95, stream_contract := 5) \<rparr>"

definition lower_signature :: buff where
  "lower_signature = stub_sign 1 (hash_stream stub_crypto scenario_raised 0 1 tf_0_5)"

section \<open>General facts\<close>

lemmas err_defs = ERR_UNAUTHORIZED_def ERR_INVALID_SIGNATURE_def ERR_STREAM_STILL_ACTIVE_def
  ERR_INVALID_STREAM_ID_def ERR_INVALID_AMOUNT_def ERR_INVALID_TIMEFRAME_def

lemmas arith_defs = uint_add_def uint_sub_def uint_mul_def

lemmas account_defs = wallet_1_def wallet_2_def wallet_3_def stream_contract_def call_env_def
  genesis_def deployed_def tf_0_5_def

lemmas call_defs = stream_to_def stream_to_body_def refuel_def refuel_body_def
  withdraw_def withdraw_body_def refund_def refund_body_def commit_def stx_transfer_def
  balance_of_def calculate_block_delta_def

lemma uint_add_zero: "uint_add w 0 = Ok w"
  using unsigned_less[of w, where ?'a = nat] by (simp add: uint_add_def)

lemma rbind_eq_Ok: "rbind r f = Ok x \<longleftrightarrow> (\<exists>v. r = Ok v \<and> f v = Ok x)"
  by (cases r) auto

subsection \<open>The scenarios are reached by running the contract\<close>

lemma scenario_A_created:
  "stream_to (call_env wallet_1 2) genesis wallet_2 5 tf_0_5 1 = (Ok 0, scenario_A)"
  by (simp add: scenario_A_def call_defs err_defs arith_defs account_defs Let_def)

lemma scenario_D_withdrawn: "withdraw (call_env wallet_2 4) scenario_A 0 = (Ok 4, scenario_D)"
  by (simp add: scenario_A_def scenario_D_def call_defs err_defs arith_defs account_defs Let_def)

lemma trace_D_reaches: "run stub_crypto stream_contract (2, genesis) trace_D = (4, scenario_D)"
  by (simp add: run_def trace_D_def scenario_D_def call_defs err_defs arith_defs account_defs
      Let_def)

section \<open>Withdrawing when nothing is claimable\<close>

lemma withdraw_nothing_claimable:
  assumes "streams st i = Some s" and "contract_caller e = recipient s"
    and "balance_of (stacks_block_height e) st i (recipient s) = Ok 0"
  shows "withdraw e st i = (Err 3, st)"
  using assms
  by (simp add: withdraw_def withdraw_body_def uint_add_zero stx_transfer_def commit_def)

lemma balance_of_recipient_Ok:
  assumes "streams st i = Some s" and "balance_of h st i (recipient s) = Ok a"
  obtains d v where "calculate_block_delta h (timeframe s) = Ok d"
    "uint_mul d (payment_per_block s) = Ok v" "withdrawn_balance s \<le> v"
    "a = v - withdrawn_balance s"
  using assms by (auto simp: balance_of_def rbind_eq_Ok uint_sub_def split: if_splits)

lemma withdraw_Ok_D:
  assumes "withdraw e st i = (Ok a, st')"
  obtains s d v L where "streams st i = Some s" "contract_caller e = recipient s"
    "calculate_block_delta (stacks_block_height e) (timeframe s) = Ok d"
    "uint_mul d (payment_per_block s) = Ok v"
    "withdrawn_balance s \<le> v" "a = v - withdrawn_balance s"
    "unat (withdrawn_balance s) + unat a < 2 ^ 128"
    "stx_transfer (contract_principal e) a (contract_principal e) (recipient s) (stx st) = Inr L"
    "st' = st\<lparr> streams := (streams st)(i \<mapsto> s\<lparr> withdrawn_balance := withdrawn_balance s + a \<rparr>),
               stx := L \<rparr>"
proof -
  from assms obtain s where s: "streams st i = Some s"
    by (cases "streams st i") (auto simp: withdraw_def withdraw_body_def commit_def err_defs)
  from assms s obtain bal
    where bal: "balance_of (stacks_block_height e) st i (contract_caller e) = Ok bal"
    by (cases "balance_of (stacks_block_height e) st i (contract_caller e)")
       (auto simp: withdraw_def withdraw_body_def commit_def)
  from assms s bal have c: "contract_caller e = recipient s"
    by (auto simp: withdraw_def withdraw_body_def commit_def err_defs split: if_splits)
  from assms s bal c obtain w where w: "uint_add (withdrawn_balance s) bal = Ok w"
    by (cases "uint_add (withdrawn_balance s) bal")
       (auto simp: withdraw_def withdraw_body_def commit_def)
  from assms s bal c w obtain L where
    L: "stx_transfer (contract_principal e) bal (contract_principal e) (recipient s) (stx st)
          = Inr L"
    by (cases "stx_transfer (contract_principal e) bal (contract_principal e) (recipient s)
                 (stx st)")
       (auto simp: withdraw_def withdraw_body_def commit_def Let_def)
  from assms s bal c w L have r: "a = bal"
    "st' = st\<lparr> streams := (streams st)(i \<mapsto> s\<lparr> withdrawn_balance := w \<rparr>), stx := L \<rparr>"
    by (auto simp: withdraw_def withdraw_body_def commit_def Let_def)
  from w have w': "w = withdrawn_balance s + bal"
    "unat (withdrawn_balance s) + unat bal < 2 ^ 128"
    by (auto simp: uint_add_def split: if_splits)
  from s bal c obtain d v
    where "calculate_block_delta (stacks_block_height e) (timeframe s) = Ok d"
      "uint_mul d (payment_per_block s) = Ok v" "withdrawn_balance s \<le> v"
      "bal = v - withdrawn_balance s"
    by (auto elim: balance_of_recipient_Ok)
  with s c L r w' show ?thesis by (auto intro: that)
qed

lemma withdraw_twice:
  assumes "withdraw e st i = (Ok a, st')"
  shows "withdraw e st' i = (Err 3, st')"
proof -
  from assms obtain s d v L where f: "streams st i = Some s" "contract_caller e = recipient s"
    "calculate_block_delta (stacks_block_height e) (timeframe s) = Ok d"
    "uint_mul d (payment_per_block s) = Ok v"
    "withdrawn_balance s \<le> v" "a = v - withdrawn_balance s"
    "st' = st\<lparr> streams := (streams st)(i \<mapsto> s\<lparr> withdrawn_balance := withdrawn_balance s + a \<rparr>),
               stx := L \<rparr>"
    by (rule withdraw_Ok_D)
  let ?s' = "s\<lparr> withdrawn_balance := withdrawn_balance s + a \<rparr>"
  have s': "streams st' i = Some ?s'" by (simp add: f(7))
  have w: "withdrawn_balance s + a = v" by (simp add: f(6))
  have "balance_of (stacks_block_height e) st' i (recipient ?s') = Ok 0"
    by (simp add: balance_of_def s' f(3,4) w uint_sub_def)
  moreover have "contract_caller e = recipient ?s'" by (simp add: f(2))
  ultimately show ?thesis using s' by (auto intro: withdraw_nothing_claimable)
qed

text \<open>
  Claim C1, as the specification states it: a withdraw by the recipient whose claimable
  amount is 0 succeeds and returns 0; a second withdraw at the same height succeeds with
  a payout of 0. The contract does otherwise. In scenario D the recipient has just
  withdrawn everything vested at height 4, the stream exists, the caller is its recipient
  and \<open>balance-of\<close> answers 0; the call hands the amount 0 to \<open>stx-transfer?\<close>, which
  rejects a zero amount with \<open>(err u3)\<close>, and \<open>try!\<close> returns that error. The answer is
  an error, the state is unchanged.
\<close>

theorem withdraw_zero_claim_counterexample:
  "streams scenario_D 0 =
      Some \<lparr> sender = wallet_1, recipient = wallet_2, balance = 5,
             withdrawn_balance = 4, payment_per_block = 1, timeframe = tf_0_5 \<rparr>
   \<and> contract_caller (call_env wallet_2 4) = wallet_2
   \<and> balance_of 4 scenario_D 0 wallet_2 = Ok 0
   \<and> withdraw (call_env wallet_2 4) scenario_D 0 = (Err 3, scenario_D)"
  by (simp add: scenario_D_def call_defs err_defs arith_defs account_defs Let_def)

text \<open>
  Claim C1, amended: for every existing stream, a withdraw by the recipient whose
  claimable amount is 0 is answered with the error \<open>(err u3)\<close> of the transfer and leaves
  the state as it was; in particular, after a successful withdraw a second withdraw with
  no time advance pays nothing: it is answered with \<open>(err u3)\<close> and changes nothing.
\<close>

theorem withdraw_zero_claim_rejected:
  "(streams st i = Some s \<and> contract_caller e = recipient s
      \<and> balance_of (stacks_block_height e) st i (recipient s) = Ok 0
      \<longrightarrow> withdraw e st i = (Err 3, st))
   \<and> (withdraw e st i = (Ok a, st') \<longrightarrow> withdraw e st' i = (Err 3, st'))"
  using withdraw_nothing_claimable withdraw_twice by blast

text \<open>
  Before the start block nothing has vested: at height 0 the recipient of scenario A is
  answered with the error. At height 4 the first withdraw pays 4 and the second is
  answered with the error.
\<close>

theorem withdraw_zero_claim_rejected_witness:
  "balance_of 0 scenario_A 0 wallet_2 = Ok 0
   \<and> withdraw (call_env wallet_2 0) scenario_A 0 = (Err 3, scenario_A)
   \<and> withdraw (call_env wallet_2 4) scenario_A 0 = (Ok 4, scenario_D)
   \<and> withdraw (call_env wallet_2 4) scenario_D 0 = (Err 3, scenario_D)"
proof -
  let ?s = "\<lparr> sender = wallet_1, recipient = wallet_2, balance = 5,
             withdrawn_balance = 0, payment_per_block = 1, timeframe = tf_0_5 \<rparr>"
  have s: "streams scenario_A 0 = Some ?s" by (simp add: scenario_A_def)
  have c: "contract_caller (call_env wallet_2 0) = recipient ?s" by (simp add: call_env_def)
  have b: "balance_of (stacks_block_height (call_env wallet_2 0)) scenario_A 0 (recipient ?s)
             = Ok 0"
    by (simp add: scenario_A_def call_defs arith_defs account_defs Let_def)
  from s c b withdraw_zero_claim_rejected[of scenario_A 0 ?s "call_env wallet_2 0"]
  have 1: "withdraw (call_env wallet_2 0) scenario_A 0 = (Err 3, scenario_A)" by blast
  have a: "withdraw (call_env wallet_2 4) scenario_A 0 = (Ok 4, scenario_D)"
    by (rule scenario_D_withdrawn)
  from a withdraw_zero_claim_rejected[of scenario_A 0 _ "call_env wallet_2 4" 4 scenario_D]
  have 2: "withdraw (call_env wallet_2 4) scenario_D 0 = (Err 3, scenario_D)" by blast
  from b 1 a 2 show ?thesis by (simp add: call_env_def)
qed

section \<open>Updates that the other party has signed\<close>

lemma be_bytes_length: "length (be_bytes n w) = n"
  by (simp add: be_bytes_def)

lemma stub_digest_length: "length (hash_stream stub_crypto st i p t) = 32"
  by (simp add: hash_stream_def stub_crypto_def stub_sha256_def be_bytes_length
      split: option.splits)

lemma stub_sign_length: "length h = 32 \<Longrightarrow> length (stub_sign k h) = 65"
  by (simp add: stub_sign_def)

lemma stub_signature_valid:
  "length h = 32 \<Longrightarrow> validate_signature stub_crypto h (stub_sign k h) (Standard 26 (ucast k))"
  by (simp add: validate_signature_def stub_crypto_def stub_sign_def)

lemma stub_signature_wallet_1:
  "validate_signature stub_crypto (hash_stream stub_crypto st i p t)
     (stub_sign 1 (hash_stream stub_crypto st i p t)) wallet_1"
  using stub_signature_valid[OF stub_digest_length, of st i p t 1] by (simp add: wallet_1_def)

lemma update_details_accepts:
  assumes "streams st i = Some s"
    and "validate_signature K (hash_stream K st i ppb tf) signature signer"
    and "dual_consent s (contract_caller e) signer"
  shows "update_details K e st i ppb tf signer signature =
           (Ok True, st\<lparr> streams := (streams st)(i \<mapsto>
                             s\<lparr> payment_per_block := ppb, timeframe := tf \<rparr>) \<rparr>)"
  using assms
  by (auto simp: update_details_def update_details_body_def commit_def dual_consent_def)

lemma scenario_cut_updated:
  "update_details stub_crypto (call_env wallet_2 4) scenario_D 0 0 tf_0_5 wallet_1 cut_signature
     = (Ok True, scenario_cut)"
proof -
  have s: "streams scenario_D 0 = Some \<lparr> sender = wallet_1, recipient = wallet_2, balance = 5,
             withdrawn_balance = 4, payment_per_block = 1, timeframe = tf_0_5 \<rparr>"
    by (simp add: scenario_D_def)
  have v: "validate_signature stub_crypto (hash_stream stub_crypto scenario_D 0 0 tf_0_5)
             cut_signature wallet_1"
    unfolding cut_signature_def by (rule stub_signature_wallet_1)
  have d: "dual_consent \<lparr> sender = wallet_1, recipient = wallet_2, balance = 5,
             withdrawn_balance = 4, payment_per_block = 1, timeframe = tf_0_5 \<rparr>
             (contract_caller (call_env wallet_2 4)) wallet_1"
    by (simp add: dual_consent_def call_env_def)
  show ?thesis
    by (simp add: update_details_accepts[OF s v d]) (simp add: scenario_D_def scenario_cut_def)
qed

lemma run_append: "run K self c (evs @ evs') = run K self (run K self c evs) evs'"
  by (simp add: run_def)

lemma trace_cut_reaches:
  "run stub_crypto stream_contract (2, genesis) trace_cut = (4, scenario_cut)"
  using scenario_cut_updated
  by (simp add: trace_cut_def run_append trace_D_reaches) (simp add: run_def call_env_def)

section \<open>The recipient's claimable amount\<close>

text \<open>
  Claim C3, as the specification states it: the recipient's claimable computation never
  underflows; when \<open>withdrawn-balance\<close> exceeds the vested amount it returns 0 by a
  saturating subtraction. The contract subtracts with the plain \<open>-\<close> of the language.
  In the state that \<open>trace_cut\<close> reaches, the rate has been lowered to 0 after 4 units
  were withdrawn: at height 4 the block delta is 4, the vested amount is 0, and
  \<open>balance-of\<close> for the recipient aborts with an arithmetic underflow.
\<close>

theorem recipient_claimable_counterexample:
  "run stub_crypto stream_contract (2, genesis) trace_cut = (4, scenario_cut)
   \<and> streams scenario_cut 0 =
      Some \<lparr> sender = wallet_1, recipient = wallet_2, balance = 5,
             withdrawn_balance = 4, payment_per_block = 0, timeframe = tf_0_5 \<rparr>
   \<and> calculate_block_delta 4 tf_0_5 = Ok 4
   \<and> balance_of 4 scenario_cut 0 wallet_2 = RuntimeAbort ArithmeticUnderflow"
  by (simp add: trace_cut_reaches)
     (simp add: scenario_cut_def call_defs arith_defs account_defs Let_def)

text \<open>
  Claim C3, amended: for every stream and every height at which the block delta and the
  vested amount (delta times rate) are computed without a runtime error, \<open>balance-of\<close>
  for the recipient returns the vested amount minus \<open>withdrawn-balance\<close> when
  \<open>withdrawn-balance\<close> does not exceed the vested amount, and aborts with an arithmetic
  underflow when it does; it does not saturate at 0.
\<close>

theorem recipient_claimable:
  assumes "streams st i = Some s"
    and "calculate_block_delta h (timeframe s) = Ok d"
    and "uint_mul d (payment_per_block s) = Ok v"
  shows "balance_of h st i (recipient s) =
           (if withdrawn_balance s \<le> v then Ok (v - withdrawn_balance s)
            else RuntimeAbort ArithmeticUnderflow)"
  using assms by (simp add: balance_of_def uint_sub_def)

theorem recipient_claimable_witness:
  "balance_of 4 scenario_A 0 wallet_2 = Ok 4
   \<and> balance_of 4 scenario_cut 0 wallet_2 = RuntimeAbort ArithmeticUnderflow"
proof -
  let ?a = "\<lparr> sender = wallet_1, recipient = wallet_2, balance = 5,
             withdrawn_balance = 0, payment_per_block = 1, timeframe = tf_0_5 \<rparr>"
  let ?c = "\<lparr> sender = wallet_1, recipient = wallet_2, balance = 5,
             withdrawn_balance = 4, payment_per_block = 0, timeframe = tf_0_5 \<rparr>"
  have d: "calculate_block_delta 4 (timeframe ?a) = Ok 4"
    "calculate_block_delta 4 (timeframe ?c) = Ok 4"
    by (simp_all add: calculate_block_delta_def tf_0_5_def uint_sub_def)
  have "streams scenario_A 0 = Some ?a" by (simp add: scenario_A_def)
  moreover have "uint_mul 4 (payment_per_block ?a) = Ok 4" by (simp add: uint_mul_def)
  ultimately have 1: "balance_of 4 scenario_A 0 wallet_2 = Ok 4"
    using recipient_claimable[of scenario_A 0 ?a 4 4 4] d by simp
  have "streams scenario_cut 0 = Some ?c" by (simp add: scenario_cut_def)
  moreover have "uint_mul 4 (payment_per_block ?c) = Ok 0" by (simp add: uint_mul_def)
  ultimately have 2: "balance_of 4 scenario_cut 0 wallet_2 = RuntimeAbort ArithmeticUnderflow"
    using recipient_claimable[of scenario_cut 0 ?c 4 4 0] d by simp
  from 1 2 show ?thesis by simp
qed

section \<open>Who may update a stream, and what an update changes\<close>

lemma update_details_rejects:
  assumes "streams st i = Some s" and "\<not> dual_consent s (contract_caller e) signer"
  shows "update_details K e st i ppb tf signer signature =
           ((if validate_signature K (hash_stream K st i ppb tf) signature signer
             then ERR_UNAUTHORIZED else ERR_INVALID_SIGNATURE), st)"
  using assms
  by (auto simp: update_details_def update_details_body_def commit_def dual_consent_def err_defs)

lemma update_details_Ok_D:
  assumes "update_details K e st i ppb tf signer signature = (Ok v, st')"
  obtains s where "streams st i = Some s"
    "validate_signature K (hash_stream K st i ppb tf) signature signer"
    "dual_consent s (contract_caller e) signer"
    "v = True"
    "st' = st\<lparr> streams := (streams st)(i \<mapsto> s\<lparr> payment_per_block := ppb, timeframe := tf \<rparr>) \<rparr>"
  using assms
  by (cases "streams st i")
     (auto simp: update_details_def update_details_body_def commit_def dual_consent_def err_defs
           split: if_splits)

text \<open>
  Claim C5: for every stream whose sender and recipient are distinct, \<open>update-details\<close>
  succeeds only if caller and signer are the stream's sender and recipient, in one order
  or the other. The signature is checked before the parties: a call with any other
  caller/signer pair is answered with \<open>ERR_UNAUTHORIZED\<close> once its signature has
  passed the check (and with \<open>ERR_INVALID_SIGNATURE\<close> when it has not), and leaves the
  state unchanged. In particular a self-signed update, where caller and signer are the
  same principal and the signature is valid for that signer, is answered with
  \<open>ERR_UNAUTHORIZED\<close>.
\<close>

theorem update_details_needs_both_parties:
  assumes "streams st i = Some s" and "sender s \<noteq> recipient s"
  shows "(\<not> dual_consent s (contract_caller e) signer \<longrightarrow>
            update_details K e st i ppb tf signer signature =
              ((if validate_signature K (hash_stream K st i ppb tf) signature signer
                then ERR_UNAUTHORIZED else ERR_INVALID_SIGNATURE), st))
       \<and> ((\<exists>v. fst (update_details K e st i ppb tf signer signature) = Ok v) \<longrightarrow>
            dual_consent s (contract_caller e) signer)
       \<and> (contract_caller e = signer
            \<and> validate_signature K (hash_stream K st i ppb tf) signature signer \<longrightarrow>
            update_details K e st i ppb tf signer signature = (ERR_UNAUTHORIZED, st))"
proof (intro conjI impI)
  assume "\<not> dual_consent s (contract_caller e) signer"
  with assms(1) show "update_details K e st i ppb tf signer signature =
              ((if validate_signature K (hash_stream K st i ppb tf) signature signer
                then ERR_UNAUTHORIZED else ERR_INVALID_SIGNATURE), st)"
    by (rule update_details_rejects)
next
  assume "\<exists>v. fst (update_details K e st i ppb tf signer signature) = Ok v"
  then obtain v st' where "update_details K e st i ppb tf signer signature = (Ok v, st')"
    by (metis prod.collapse)
  then show "dual_consent s (contract_caller e) signer"
    using assms(1) by (auto elim: update_details_Ok_D)
next
  assume a: "contract_caller e = signer
            \<and> validate_signature K (hash_stream K st i ppb tf) signature signer"
  with assms(2) have "\<not> dual_consent s (contract_caller e) signer"
    by (auto simp: dual_consent_def)
  with assms(1) a show "update_details K e st i ppb tf signer signature = (ERR_UNAUTHORIZED, st)"
    by (simp add: update_details_rejects)
qed

lemma scenario_A_stream:
  "streams scenario_A 0 = Some \<lparr> sender = wallet_1, recipient = wallet_2, balance = 5,
             withdrawn_balance = 0, payment_per_block = 1, timeframe = tf_0_5 \<rparr>"
  by (simp add: scenario_A_def)

text \<open>
  The sender of scenario A signs the proposal of scenario F. Submitted by the sender
  (self-signed) or by a third wallet it is unauthorized; submitted by the recipient it is
  applied.
\<close>

theorem update_details_needs_both_parties_witness:
  "validate_signature stub_crypto (hash_stream stub_crypto scenario_A 0 1 tf_0_4)
      scenario_F_signature wallet_1
   \<and> update_details stub_crypto (call_env wallet_1 4) scenario_A 0 1 tf_0_4 wallet_1
        scenario_F_signature = (ERR_UNAUTHORIZED, scenario_A)
   \<and> update_details stub_crypto (call_env wallet_3 4) scenario_A 0 1 tf_0_4 wallet_1
        scenario_F_signature = (ERR_UNAUTHORIZED, scenario_A)
   \<and> fst (update_details stub_crypto (call_env wallet_2 4) scenario_A 0 1 tf_0_4 wallet_1
        scenario_F_signature) = Ok True"
proof -
  let ?s = "\<lparr> sender = wallet_1, recipient = wallet_2, balance = 5,
             withdrawn_balance = 0, payment_per_block = 1, timeframe = tf_0_5 \<rparr>"
  have d: "sender ?s \<noteq> recipient ?s" by (simp add: wallet_1_def wallet_2_def)
  have v: "validate_signature stub_crypto (hash_stream stub_crypto scenario_A 0 1 tf_0_4)
      scenario_F_signature wallet_1"
    unfolding scenario_F_signature_def by (rule stub_signature_wallet_1)
  have c1: "contract_caller (call_env wallet_1 4) = wallet_1" by (simp add: call_env_def)
  have n3: "\<not> dual_consent ?s (contract_caller (call_env wallet_3 4)) wallet_1"
    by (simp add: dual_consent_def call_env_def wallet_1_def wallet_2_def wallet_3_def)
  have ok: "fst (update_details stub_crypto (call_env wallet_2 4) scenario_A 0 1 tf_0_4 wallet_1
        scenario_F_signature) = Ok True"
    using v by (simp add: update_details_def update_details_body_def commit_def scenario_A_def
        call_env_def)
  note t = update_details_needs_both_parties[OF scenario_A_stream d, of _ wallet_1 stub_crypto 1 tf_0_4 scenario_F_signature]
  from t[of "call_env wallet_1 4"] c1 v
  have 1: "update_details stub_crypto (call_env wallet_1 4) scenario_A 0 1 tf_0_4 wallet_1
        scenario_F_signature = (ERR_UNAUTHORIZED, scenario_A)" by simp
  from t[of "call_env wallet_3 4"] n3 v
  have 2: "update_details stub_crypto (call_env wallet_3 4) scenario_A 0 1 tf_0_4 wallet_1
        scenario_F_signature = (ERR_UNAUTHORIZED, scenario_A)" by simp
  from v 1 2 ok show ?thesis by simp
qed


text \<open>
  Claim C7: a successful \<open>update-details\<close> overwrites \<open>payment-per-block\<close> and
  \<open>timeframe\<close> of the one stream and nothing else: sender, recipient, balance and
  withdrawn-balance of that stream, every other stream, the counter and the STX balances
  are as before. The new timeframe is not validated: with a valid signature and the two
  parties as caller and signer, an update whose new stop is at or before its new start
  succeeds.
\<close>

theorem update_details_frame:
  "(update_details K e st i ppb tf signer signature = (Ok v, st') \<longrightarrow>
      (\<exists>s s'. streams st i = Some s \<and> streams st' i = Some s'
         \<and> payment_per_block s' = ppb \<and> timeframe s' = tf
         \<and> sender s' = sender s \<and> recipient s' = recipient s
         \<and> balance s' = balance s \<and> withdrawn_balance s' = withdrawn_balance s)
      \<and> (\<forall>j. j \<noteq> i \<longrightarrow> streams st' j = streams st j)
      \<and> latest_stream_id st' = latest_stream_id st \<and> stx st' = stx st)
   \<and> (streams st i = Some s
        \<and> validate_signature K (hash_stream K st i ppb tf) signature signer
        \<and> dual_consent s (contract_caller e) signer
        \<and> stop_block tf \<le> start_block tf \<longrightarrow>
      fst (update_details K e st i ppb tf signer signature) = Ok True)"
proof (intro conjI impI)
  assume "update_details K e st i ppb tf signer signature = (Ok v, st')"
  then obtain s where s: "streams st i = Some s"
    "st' = st\<lparr> streams := (streams st)(i \<mapsto> s\<lparr> payment_per_block := ppb, timeframe := tf \<rparr>) \<rparr>"
    by (rule update_details_Ok_D)
  from s show "\<exists>s s'. streams st i = Some s \<and> streams st' i = Some s'
         \<and> payment_per_block s' = ppb \<and> timeframe s' = tf
         \<and> sender s' = sender s \<and> recipient s' = recipient s
         \<and> balance s' = balance s \<and> withdrawn_balance s' = withdrawn_balance s"
    by simp
  from s show "\<forall>j. j \<noteq> i \<longrightarrow> streams st' j = streams st j" by simp
  from s show "latest_stream_id st' = latest_stream_id st" by simp
  from s show "stx st' = stx st" by simp
next
  assume "streams st i = Some s
        \<and> validate_signature K (hash_stream K st i ppb tf) signature signer
        \<and> dual_consent s (contract_caller e) signer
        \<and> stop_block tf \<le> start_block tf"
  then show "fst (update_details K e st i ppb tf signer signature) = Ok True"
    by (simp add: update_details_accepts)
qed

text \<open>
  Over scenario A the parties install a timeframe that starts at block 7 and stops at
  block 3.
\<close>

theorem update_details_frame_witness:
  "stop_block tf_7_3 \<le> start_block tf_7_3
   \<and> update_details stub_crypto (call_env wallet_2 4) scenario_A 0 1 tf_7_3 wallet_1
        backwards_signature
      = (Ok True, scenario_A\<lparr> streams := [0 \<mapsto> \<lparr> sender = wallet_1, recipient = wallet_2,
             balance = 5, withdrawn_balance = 0, payment_per_block = 1, timeframe = tf_7_3 \<rparr>] \<rparr>)"
proof -
  let ?s = "\<lparr> sender = wallet_1, recipient = wallet_2, balance = 5,
             withdrawn_balance = 0, payment_per_block = 1, timeframe = tf_0_5 \<rparr>"
  let ?u = "update_details stub_crypto (call_env wallet_2 4) scenario_A 0 1 tf_7_3 wallet_1
        backwards_signature"
  have b: "stop_block tf_7_3 \<le> start_block tf_7_3" by (simp add: tf_7_3_def)
  have v: "validate_signature stub_crypto (hash_stream stub_crypto scenario_A 0 1 tf_7_3)
      backwards_signature wallet_1"
    unfolding backwards_signature_def by (rule stub_signature_wallet_1)
  have d: "dual_consent ?s (contract_caller (call_env wallet_2 4)) wallet_1"
    by (simp add: dual_consent_def call_env_def)
  note t = update_details_frame[of stub_crypto "call_env wallet_2 4" scenario_A 0 1 tf_7_3 wallet_1
      backwards_signature True "snd ?u" ?s]
  from t scenario_A_stream v d b have ok: "fst ?u = Ok True" by blast
  then have "?u = (Ok True, snd ?u)" by (metis prod.collapse)
  with t have "\<exists>s'. streams (snd ?u) 0 = Some s'
         \<and> payment_per_block s' = 1 \<and> timeframe s' = tf_7_3
         \<and> sender s' = sender ?s \<and> recipient s' = recipient ?s
         \<and> balance s' = balance ?s \<and> withdrawn_balance s' = withdrawn_balance ?s"
    using scenario_A_stream by auto
  moreover have "?u = (Ok True, scenario_A\<lparr> streams := [0 \<mapsto> \<lparr> sender = wallet_1,
             recipient = wallet_2,
             balance = 5, withdrawn_balance = 0, payment_per_block = 1, timeframe = tf_7_3 \<rparr>] \<rparr>)"
    using v by (simp add: update_details_def update_details_body_def commit_def scenario_A_def
        call_env_def)
  ultimately show ?thesis using b by simp
qed

section \<open>Refuelling\<close>

lemma refuel_Ok_D:
  assumes "refuel e st i amount = (Ok v, st')"
  obtains s L where "streams st i = Some s" "contract_caller e = sender s" "0 < amount"
    "stx_transfer (tx_sender e) amount (contract_caller e) (contract_principal e) (stx st) = Inr L"
    "unat (balance s) + unat amount < 2 ^ 128" "v = amount"
    "st' = st\<lparr> stx := L, streams := (streams st)(i \<mapsto> s\<lparr> balance := balance s + amount \<rparr>) \<rparr>"
proof -
  from assms obtain s where s: "streams st i = Some s"
    by (cases "streams st i") (auto simp: refuel_def refuel_body_def commit_def err_defs)
  from assms s have c: "contract_caller e = sender s" "0 < amount"
    by (auto simp: refuel_def refuel_body_def commit_def err_defs split: if_splits)
  from assms s c obtain L where L:
    "stx_transfer (tx_sender e) amount (contract_caller e) (contract_principal e) (stx st) = Inr L"
    by (cases "stx_transfer (tx_sender e) amount (contract_caller e) (contract_principal e) (stx st)")
       (auto simp: refuel_def refuel_body_def commit_def)
  from assms s c L have "unat (balance s) + unat amount < 2 ^ 128" "v = amount"
    "st' = st\<lparr> stx := L, streams := (streams st)(i \<mapsto> s\<lparr> balance := balance s + amount \<rparr>) \<rparr>"
    by (auto simp: refuel_def refuel_body_def commit_def uint_add_def Let_def split: if_splits)
  with s c L show ?thesis by (auto intro: that)
qed

lemma commit_failure: "(\<forall>v. fst r \<noteq> Ok v) \<Longrightarrow> commit st r = (fst r, st)"
  by (cases "fst r") (auto simp: commit_def)

lemma refuel_body_failure:
  "(\<forall>v. fst (refuel_body e st i amount) \<noteq> Ok v) \<Longrightarrow>
     streams (snd (refuel_body e st i amount)) = streams st"
  by (auto simp: refuel_body_def Let_def err_defs split: option.splits sum.splits response.splits)

text \<open>
  Claim C8: \<open>refuel\<close> answers \<open>ERR_INVALID_STREAM_ID\<close> when the stream does not exist,
  \<open>ERR_UNAUTHORIZED\<close> when the caller is not the stream's sender, and
  \<open>ERR_INVALID_AMOUNT\<close> when the sender refuels with amount 0 (the checks are made in
  this order). Every call that does not answer \<open>(ok ...)\<close> leaves the state unchanged,
  and even before the roll-back the body has not touched the map. A successful call
  returns the amount, adds exactly the amount to \<open>balance\<close> (without wrap-around),
  and changes no other field, no other stream and not the counter.
\<close>

theorem refuel_cases:
  "(streams st i = None \<longrightarrow> refuel e st i amount = (ERR_INVALID_STREAM_ID, st))
   \<and> (streams st i = Some s \<and> contract_caller e \<noteq> sender s \<longrightarrow>
        refuel e st i amount = (ERR_UNAUTHORIZED, st))
   \<and> (streams st i = Some s \<and> contract_caller e = sender s \<and> amount = 0 \<longrightarrow>
        refuel e st i amount = (ERR_INVALID_AMOUNT, st))
   \<and> ((\<forall>v. fst (refuel e st i amount) \<noteq> Ok v) \<longrightarrow>
        snd (refuel e st i amount) = st
        \<and> streams (snd (refuel_body e st i amount)) = streams st)
   \<and> (refuel e st i amount = (Ok v, st') \<longrightarrow>
        v = amount
        \<and> (\<exists>s s'. streams st i = Some s \<and> streams st' i = Some s'
              \<and> s' = s\<lparr> balance := balance s + amount \<rparr>
              \<and> unat (balance s') = unat (balance s) + unat amount)
        \<and> (\<forall>j. j \<noteq> i \<longrightarrow> streams st' j = streams st j)
        \<and> latest_stream_id st' = latest_stream_id st)"
proof (intro conjI impI)
  assume "streams st i = None"
  then show "refuel e st i amount = (ERR_INVALID_STREAM_ID, st)"
    by (simp add: refuel_def refuel_body_def commit_def err_defs)
next
  assume "streams st i = Some s \<and> contract_caller e \<noteq> sender s"
  then show "refuel e st i amount = (ERR_UNAUTHORIZED, st)"
    by (simp add: refuel_def refuel_body_def commit_def err_defs)
next
  assume "streams st i = Some s \<and> contract_caller e = sender s \<and> amount = 0"
  then show "refuel e st i amount = (ERR_INVALID_AMOUNT, st)"
    by (simp add: refuel_def refuel_body_def commit_def err_defs)
next
  assume f: "\<forall>v. fst (refuel e st i amount) \<noteq> Ok v"
  then show "snd (refuel e st i amount) = st"
    by (cases "fst (refuel_body e st i amount)") (auto simp: refuel_def commit_def)
  from f have "\<forall>v. fst (refuel_body e st i amount) \<noteq> Ok v"
    by (cases "fst (refuel_body e st i amount)") (auto simp: refuel_def commit_def)
  then show "streams (snd (refuel_body e st i amount)) = streams st"
    by (rule refuel_body_failure)
next
  assume a: "refuel e st i amount = (Ok v, st')"
  then obtain s L where r: "streams st i = Some s"
    "unat (balance s) + unat amount < 2 ^ 128" "v = amount"
    "st' = st\<lparr> stx := L, streams := (streams st)(i \<mapsto> s\<lparr> balance := balance s + amount \<rparr>) \<rparr>"
    by (rule refuel_Ok_D)
  from r show "v = amount" by simp
  from r(2) have "unat (balance s + amount) = unat (balance s) + unat amount"
    by (simp add: unat_word_ariths)
  with r show "\<exists>s s'. streams st i = Some s \<and> streams st' i = Some s'
              \<and> s' = s\<lparr> balance := balance s + amount \<rparr>
              \<and> unat (balance s') = unat (balance s) + unat amount"
    by simp
  from r show "\<forall>j. j \<noteq> i \<longrightarrow> streams st' j = streams st j" by simp
  from r show "latest_stream_id st' = latest_stream_id st" by simp
qed

lemma scenario_B_refuelled: "refuel (call_env wallet_1 3) scenario_A 0 5 = (Ok 5, scenario_B)"
  by (simp add: scenario_A_def scenario_B_def call_defs err_defs arith_defs account_defs Let_def)

text \<open>
  Scenarios B and C: on the stream of scenario A, a refuel of an unknown stream, by a
  third wallet, of amount 0, and the sender's refuel of 5, which raises the balance from
  5 to 10.
\<close>

theorem refuel_cases_witness:
  "refuel (call_env wallet_1 3) scenario_A 7 5 = (ERR_INVALID_STREAM_ID, scenario_A)
   \<and> refuel (call_env wallet_3 3) scenario_A 0 5 = (ERR_UNAUTHORIZED, scenario_A)
   \<and> refuel (call_env wallet_1 3) scenario_A 0 0 = (ERR_INVALID_AMOUNT, scenario_A)
   \<and> refuel (call_env wallet_1 3) scenario_A 0 5 = (Ok 5, scenario_B)
   \<and> streams scenario_B 0 =
        Some \<lparr> sender = wallet_1, recipient = wallet_2, balance = 10,
               withdrawn_balance = 0, payment_per_block = 1, timeframe = tf_0_5 \<rparr>"
proof -
  let ?s = "\<lparr> sender = wallet_1, recipient = wallet_2, balance = 5,
             withdrawn_balance = 0, payment_per_block = 1, timeframe = tf_0_5 \<rparr>"
  have n: "streams scenario_A 7 = None" by (simp add: scenario_A_def)
  have c3: "contract_caller (call_env wallet_3 3) \<noteq> sender ?s"
    by (simp add: call_env_def wallet_1_def wallet_3_def)
  have c1: "contract_caller (call_env wallet_1 3) = sender ?s" by (simp add: call_env_def)
  from refuel_cases[of scenario_A 7 "call_env wallet_1 3" 5] n
  have 1: "refuel (call_env wallet_1 3) scenario_A 7 5 = (ERR_INVALID_STREAM_ID, scenario_A)"
    by blast
  from refuel_cases[of scenario_A 0 "call_env wallet_3 3" 5 ?s] scenario_A_stream c3
  have 2: "refuel (call_env wallet_3 3) scenario_A 0 5 = (ERR_UNAUTHORIZED, scenario_A)"
    by blast
  from refuel_cases[of scenario_A 0 "call_env wallet_1 3" 0 ?s] scenario_A_stream c1
  have 3: "refuel (call_env wallet_1 3) scenario_A 0 0 = (ERR_INVALID_AMOUNT, scenario_A)"
    by blast
  from refuel_cases[of scenario_A 0 "call_env wallet_1 3" 5 ?s 5 scenario_B] scenario_B_refuelled
    scenario_A_stream
  have 4: "streams scenario_B 0 = Some (?s\<lparr> balance := balance ?s + 5 \<rparr>)"
    by auto
  from 1 2 3 4 scenario_B_refuelled show ?thesis by simp
qed

section \<open>Refunding\<close>

lemma scenario_underfunded_created:
  "stream_to (call_env wallet_1 2) genesis wallet_2 5 tf_0_5 2 = (Ok 0, scenario_underfunded)"
  by (simp add: scenario_underfunded_def call_defs err_defs arith_defs account_defs Let_def)

lemma scenario_self_created:
  "stream_to (call_env wallet_1 2) genesis wallet_1 20 tf_0_5 1 = (Ok 0, scenario_self)"
  by (simp add: scenario_self_def call_defs err_defs arith_defs account_defs Let_def)

lemma scenario_E_withdrawn: "withdraw (call_env wallet_2 6) scenario_B 0 = (Ok 5, scenario_E)"
  by (simp add: scenario_B_def scenario_E_def call_defs err_defs arith_defs account_defs Let_def)

lemma scenario_E_refund: "refund (call_env wallet_1 6) scenario_E 0 = (Ok 5, scenario_E_refunded)"
  by (simp add: scenario_E_refunded_def scenario_E_def call_defs err_defs arith_defs account_defs
      Let_def) (auto simp: fun_eq_iff)

text \<open>
  Claim C6, as the specification states it: for every existing stream, \<open>refund\<close> fails
  with Unauthorized unless the caller is the sender and with StreamStillActive unless the
  height is past the stop block, and a successful call pays the sender's excess,
  balance minus vested. Two streams that \<open>stream-to\<close> creates show otherwise.
  \<^item> \<open>refund\<close> binds \<open>(balance-of stream-id sender)\<close> in its \<open>let\<close>, before either
    \<open>asserts!\<close>. On the underfunded stream the vested amount at height 4 is 8 and the
    balance is 5, so the subtraction aborts: a third wallet gets a runtime error, not
    \<open>ERR_UNAUTHORIZED\<close>, and the sender gets a runtime error, not
    \<open>ERR_STREAM_STILL_ACTIVE\<close>.
  \<^item> \<open>balance-of\<close> tests \<open>who\<close> against the recipient first. On the stream that a
    wallet opened to itself, the sender is the recipient: at height 6 the refund pays
    vested minus withdrawn, 5, and leaves a balance of 15, where the excess is 15.
\<close>

theorem refund_cases_counterexample:
  "streams scenario_underfunded 0 =
      Some \<lparr> sender = wallet_1, recipient = wallet_2, balance = 5,
             withdrawn_balance = 0, payment_per_block = 2, timeframe = tf_0_5 \<rparr>
   \<and> contract_caller (call_env wallet_3 4) \<noteq> wallet_1
   \<and> refund (call_env wallet_3 4) scenario_underfunded 0
        = (RuntimeAbort ArithmeticUnderflow, scenario_underfunded)
   \<and> refund (call_env wallet_1 4) scenario_underfunded 0
        = (RuntimeAbort ArithmeticUnderflow, scenario_underfunded)
   \<and> streams scenario_self 0 =
      Some \<lparr> sender = wallet_1, recipient = wallet_1, balance = 20,
             withdrawn_balance = 0, payment_per_block = 1, timeframe = tf_0_5 \<rparr>
   \<and> calculate_block_delta 6 tf_0_5 = Ok 5
   \<and> fst (refund (call_env wallet_1 6) scenario_self 0) = Ok 5
   \<and> streams (snd (refund (call_env wallet_1 6) scenario_self 0)) 0 =
      Some \<lparr> sender = wallet_1, recipient = wallet_1, balance = 15,
             withdrawn_balance = 0, payment_per_block = 1, timeframe = tf_0_5 \<rparr>"
  by (simp add: scenario_underfunded_def scenario_self_def call_defs err_defs arith_defs
      account_defs Let_def)

lemma balance_of_sender:
  assumes "streams st i = Some s" and "sender s \<noteq> recipient s"
  shows "balance_of h st i (sender s) =
           rbind (calculate_block_delta h (timeframe s)) (\<lambda>d.
           rbind (uint_mul d (payment_per_block s)) (\<lambda>v. uint_sub (balance s) v))"
  using assms by (simp add: balance_of_def)

lemma refund_Ok_D:
  assumes "refund e st i = (Ok a, st')"
  obtains s L where "streams st i = Some s" "contract_caller e = sender s"
    "stop_block (timeframe s) < stacks_block_height e"
    "balance_of (stacks_block_height e) st i (sender s) = Ok a"
    "a \<le> balance s"
    "stx_transfer (contract_principal e) a (contract_principal e) (sender s) (stx st) = Inr L"
    "st' = st\<lparr> streams := (streams st)(i \<mapsto> s\<lparr> balance := balance s - a \<rparr>), stx := L \<rparr>"
proof -
  from assms obtain s where s: "streams st i = Some s"
    by (cases "streams st i") (auto simp: refund_def refund_body_def commit_def err_defs)
  from assms s obtain bal
    where bal: "balance_of (stacks_block_height e) st i (sender s) = Ok bal"
    by (cases "balance_of (stacks_block_height e) st i (sender s)")
       (auto simp: refund_def refund_body_def commit_def)
  from assms s bal have c: "contract_caller e = sender s"
    "stop_block (timeframe s) < stacks_block_height e"
    by (auto simp: refund_def refund_body_def commit_def err_defs split: if_splits)
  from assms s bal c obtain b where b: "uint_sub (balance s) bal = Ok b"
    by (cases "uint_sub (balance s) bal")
       (auto simp: refund_def refund_body_def commit_def)
  from assms s bal c b obtain L where
    L: "stx_transfer (contract_principal e) bal (contract_principal e) (sender s) (stx st)
          = Inr L"
    by (cases "stx_transfer (contract_principal e) bal (contract_principal e) (sender s)
                 (stx st)")
       (auto simp: refund_def refund_body_def commit_def Let_def)
  from assms s bal c b L have r: "a = bal"
    "st' = st\<lparr> streams := (streams st)(i \<mapsto> s\<lparr> balance := b \<rparr>), stx := L \<rparr>"
    by (auto simp: refund_def refund_body_def commit_def Let_def)
  from b have b': "b = balance s - bal" "bal \<le> balance s"
    by (auto simp: uint_sub_def split: if_splits)
  with s bal c L r show ?thesis by (auto intro: that)
qed

text \<open>
  Claim C6, amended: for every existing stream whose sender and recipient are distinct,
  and at a height where the vested amount is computed without a runtime error and does
  not exceed the balance, \<open>refund\<close> answers \<open>ERR_UNAUTHORIZED\<close> unless the caller is the
  stream's sender and \<open>ERR_STREAM_STILL_ACTIVE\<close> unless the height is past the stop
  block, leaving the state unchanged. For every existing stream whose sender and
  recipient are distinct, a successful \<open>refund\<close> was called by the sender past the stop
  block, returns the sender's excess (balance minus block delta times rate), lowers
  \<open>balance\<close> by exactly that amount and moves that amount from the contract to the
  sender.
\<close>

theorem refund_cases:
  assumes "streams st i = Some s" and "sender s \<noteq> recipient s"
  shows "(calculate_block_delta (stacks_block_height e) (timeframe s) = Ok d
          \<and> uint_mul d (payment_per_block s) = Ok v \<and> v \<le> balance s \<longrightarrow>
            (contract_caller e \<noteq> sender s \<longrightarrow> refund e st i = (ERR_UNAUTHORIZED, st))
            \<and> (contract_caller e = sender s
                 \<and> \<not> stop_block (timeframe s) < stacks_block_height e \<longrightarrow>
               refund e st i = (ERR_STREAM_STILL_ACTIVE, st)))
       \<and> (refund e st i = (Ok a, st') \<longrightarrow>
            contract_caller e = sender s \<and> stop_block (timeframe s) < stacks_block_height e
            \<and> (\<exists>d v. calculate_block_delta (stacks_block_height e) (timeframe s) = Ok d
                  \<and> uint_mul d (payment_per_block s) = Ok v \<and> v \<le> balance s
                  \<and> a = balance s - v)
            \<and> streams st' = (streams st)(i \<mapsto> s\<lparr> balance := balance s - a \<rparr>)
            \<and> unat (balance s - a) = unat (balance s) - unat a \<and> unat a \<le> unat (balance s)
            \<and> stx st' = (stx st)(contract_principal e := stx st (contract_principal e) - unat a,
                                 sender s := stx st (sender s) + unat a)
            \<and> unat a \<le> stx st (contract_principal e)
            \<and> latest_stream_id st' = latest_stream_id st)"
proof (intro conjI impI)
  assume h: "calculate_block_delta (stacks_block_height e) (timeframe s) = Ok d
          \<and> uint_mul d (payment_per_block s) = Ok v \<and> v \<le> balance s"
  with assms have b: "balance_of (stacks_block_height e) st i (sender s) = Ok (balance s - v)"
    by (simp add: balance_of_sender uint_sub_def)
  { assume "contract_caller e \<noteq> sender s"
    with assms(1) b show "refund e st i = (ERR_UNAUTHORIZED, st)"
      by (simp add: refund_def refund_body_def commit_def err_defs) }
  { assume "contract_caller e = sender s \<and> \<not> stop_block (timeframe s) < stacks_block_height e"
    with assms(1) b show "refund e st i = (ERR_STREAM_STILL_ACTIVE, st)"
      by (simp add: refund_def refund_body_def commit_def err_defs) }
next
  assume "refund e st i = (Ok a, st')"
  then obtain s0 L where r0: "streams st i = Some s0" "contract_caller e = sender s0"
    "stop_block (timeframe s0) < stacks_block_height e"
    "balance_of (stacks_block_height e) st i (sender s0) = Ok a"
    "a \<le> balance s0"
    "stx_transfer (contract_principal e) a (contract_principal e) (sender s0) (stx st) = Inr L"
    "st' = st\<lparr> streams := (streams st)(i \<mapsto> s0\<lparr> balance := balance s0 - a \<rparr>), stx := L \<rparr>"
    by (rule refund_Ok_D)
  with assms(1) have [simp]: "s0 = s" by simp
  note r = r0[simplified]
  show "contract_caller e = sender s" by (rule r(2))
  show "stop_block (timeframe s) < stacks_block_height e" by (rule r(3))
  from r(4) assms show "\<exists>d v. calculate_block_delta (stacks_block_height e) (timeframe s) = Ok d
                  \<and> uint_mul d (payment_per_block s) = Ok v \<and> v \<le> balance s
                  \<and> a = balance s - v"
    by (auto simp: balance_of_sender rbind_eq_Ok uint_sub_def split: if_splits)
  from r(7) show "streams st' = (streams st)(i \<mapsto> s\<lparr> balance := balance s - a \<rparr>)" by simp
  from r(5) show "unat (balance s - a) = unat (balance s) - unat a"
    by (simp add: unat_sub)
  from r(5) show "unat a \<le> unat (balance s)" by (simp add: word_le_nat_alt)
  from r(6,7) show "stx st' = (stx st)(contract_principal e := stx st (contract_principal e) - unat a,
                                 sender s := stx st (sender s) + unat a)"
    by (auto simp: stx_transfer_def split: if_splits)
  from r(6) show "unat a \<le> stx st (contract_principal e)"
    by (auto simp: stx_transfer_def split: if_splits)
  from r(7) show "latest_stream_id st' = latest_stream_id st" by simp
qed

text \<open>
  Scenario E: on a stream of 10 units of which 5 have vested and been withdrawn, a third
  wallet is unauthorized, the sender is too early at height 4, and at height 6 the sender
  is refunded 5.
\<close>

theorem refund_cases_witness:
  "refund (call_env wallet_3 6) scenario_E 0 = (ERR_UNAUTHORIZED, scenario_E)
   \<and> refund (call_env wallet_1 4) scenario_E 0 = (ERR_STREAM_STILL_ACTIVE, scenario_E)
   \<and> refund (call_env wallet_1 6) scenario_E 0 = (Ok 5, scenario_E_refunded)
   \<and> streams scenario_E_refunded 0 =
        Some \<lparr> sender = wallet_1, recipient = wallet_2, balance = 5,
               withdrawn_balance = 5, payment_per_block = 1, timeframe = tf_0_5 \<rparr>"
proof -
  let ?s = "\<lparr> sender = wallet_1, recipient = wallet_2, balance = 10,
             withdrawn_balance = 5, payment_per_block = 1, timeframe = tf_0_5 \<rparr>"
  have s: "streams scenario_E 0 = Some ?s" by (simp add: scenario_E_def)
  have d: "sender ?s \<noteq> recipient ?s" by (simp add: wallet_1_def wallet_2_def)
  note t = refund_cases[OF s d]
  have h6: "calculate_block_delta (stacks_block_height (call_env wallet_3 6)) (timeframe ?s) = Ok 5
          \<and> uint_mul 5 (payment_per_block ?s) = Ok 5 \<and> 5 \<le> balance ?s"
    by (simp add: call_defs arith_defs account_defs)
  have h4: "calculate_block_delta (stacks_block_height (call_env wallet_1 4)) (timeframe ?s) = Ok 4
          \<and> uint_mul 4 (payment_per_block ?s) = Ok 4 \<and> 4 \<le> balance ?s"
    by (simp add: call_defs arith_defs account_defs)
  have c3: "contract_caller (call_env wallet_3 6) \<noteq> sender ?s"
    by (simp add: call_env_def wallet_1_def wallet_3_def)
  have c1: "contract_caller (call_env wallet_1 4) = sender ?s
     \<and> \<not> stop_block (timeframe ?s) < stacks_block_height (call_env wallet_1 4)"
    by (simp add: call_env_def tf_0_5_def)
  from t[of "call_env wallet_3 6" 5 5] h6 c3
  have 1: "refund (call_env wallet_3 6) scenario_E 0 = (ERR_UNAUTHORIZED, scenario_E)" by blast
  from t[of "call_env wallet_1 4" 4 4] h4 c1
  have 2: "refund (call_env wallet_1 4) scenario_E 0 = (ERR_STREAM_STILL_ACTIVE, scenario_E)"
    by blast
  from t[of "call_env wallet_1 6" _ _ 5 scenario_E_refunded] scenario_E_refund
  have "streams scenario_E_refunded = (streams scenario_E)(0 \<mapsto> ?s\<lparr> balance := balance ?s - 5 \<rparr>)"
    by blast
  then have 3: "streams scenario_E_refunded 0 =
        Some \<lparr> sender = wallet_1, recipient = wallet_2, balance = 5,
               withdrawn_balance = 5, payment_per_block = 1, timeframe = tf_0_5 \<rparr>"
    by simp
  from 1 2 3 scenario_E_refund show ?thesis by simp
qed

section \<open>Creating streams and their identifiers\<close>

lemma stream_to_Ok_iff:
  "stream_to e st rcp ib tf ppb = (Ok v, st') \<longleftrightarrow>
     (start_block tf < stop_block tf \<and> 0 < ib
      \<and> unat (latest_stream_id st) + 1 < 2 ^ 128 \<and> v = latest_stream_id st
      \<and> (\<exists>L. stx_transfer (tx_sender e) ib (contract_caller e) (contract_principal e) (stx st)
                 = Inr L
              \<and> st' = st\<lparr> stx := L,
                   streams := (streams st)(latest_stream_id st \<mapsto>
                      \<lparr> sender = contract_caller e, recipient = rcp, balance = ib,
                        withdrawn_balance = 0, payment_per_block = ppb, timeframe = tf \<rparr>),
                   latest_stream_id := latest_stream_id st + 1 \<rparr>))"
  by (cases "stx_transfer (tx_sender e) ib (contract_caller e) (contract_principal e) (stx st)")
     (auto simp: stream_to_def stream_to_body_def commit_def Let_def err_defs uint_add_def)

lemma commit_failure_snd: "(\<forall>v. fst (commit st r) \<noteq> Ok v) \<Longrightarrow> snd (commit st r) = st"
  by (cases "fst r") (auto simp: commit_def)

lemma commit_cases:
  "(\<exists>v. r = (Ok v, snd r)) \<or> commit st r = (fst r, st)"
  by (cases r; cases "fst r") (auto simp: commit_def)

lemma word_less_succ:
  fixes n :: uint
  assumes "unat n + 1 < 2 ^ 128"
  shows "i < n + 1 \<longleftrightarrow> i < n \<or> i = n"
proof -
  from assms have "unat (n + 1) = unat n + 1" by (simp add: unat_word_ariths)
  then show ?thesis by (auto simp: word_less_nat_alt word_unat_eq_iff)
qed

lemma stream_to_dense:
  assumes "ids_dense st"
  shows "ids_dense (snd (stream_to e st rcp ib tf ppb))"
proof (cases "\<exists>v. fst (stream_to e st rcp ib tf ppb) = Ok v")
  case True
  then obtain v st' where r: "stream_to e st rcp ib tf ppb = (Ok v, st')"
    by (metis prod.collapse)
  then obtain s where n: "unat (latest_stream_id st) + 1 < 2 ^ 128"
    and st': "streams st' = (streams st)(latest_stream_id st \<mapsto> s)"
       "latest_stream_id st' = latest_stream_id st + 1"
    by (auto simp: stream_to_Ok_iff)
  from assms have "ids_dense st'"
    by (auto simp: ids_dense_def st' word_less_succ[OF n])
  with r show ?thesis by simp
next
  case False
  then have "snd (stream_to e st rcp ib tf ppb) = st"
    unfolding stream_to_def by (simp add: commit_failure_snd)
  with assms show ?thesis by simp
qed

lemma refuel_state:
  "snd (refuel e st i amount) = st
   \<or> (\<exists>s b L. streams st i = Some s
         \<and> snd (refuel e st i amount)
             = st\<lparr> stx := L, streams := (streams st)(i \<mapsto> s\<lparr> balance := b \<rparr>) \<rparr>)"
proof (cases "\<exists>v. fst (refuel e st i amount) = Ok v")
  case True
  then obtain v st' where "refuel e st i amount = (Ok v, st')" by (metis prod.collapse)
  then show ?thesis by (auto elim!: refuel_Ok_D)
next
  case False
  then show ?thesis unfolding refuel_def by (simp add: commit_failure_snd)
qed

lemma refund_state:
  "snd (refund e st i) = st
   \<or> (\<exists>s b L. streams st i = Some s
         \<and> snd (refund e st i)
             = st\<lparr> streams := (streams st)(i \<mapsto> s\<lparr> balance := b \<rparr>), stx := L \<rparr>)"
proof (cases "\<exists>v. fst (refund e st i) = Ok v")
  case True
  then obtain v st' where "refund e st i = (Ok v, st')" by (metis prod.collapse)
  then show ?thesis by (auto elim!: refund_Ok_D)
next
  case False
  then show ?thesis unfolding refund_def by (simp add: commit_failure_snd)
qed

lemma withdraw_state:
  "snd (withdraw e st i) = st
   \<or> (\<exists>s d v L. streams st i = Some s
         \<and> calculate_block_delta (stacks_block_height e) (timeframe s) = Ok d
         \<and> uint_mul d (payment_per_block s) = Ok v
         \<and> snd (withdraw e st i)
             = st\<lparr> streams := (streams st)(i \<mapsto> s\<lparr> withdrawn_balance := v \<rparr>), stx := L \<rparr>)"
proof (cases "\<exists>v. fst (withdraw e st i) = Ok v")
  case True
  then obtain a st' where "withdraw e st i = (Ok a, st')" by (metis prod.collapse)
  then show ?thesis by (auto elim!: withdraw_Ok_D)
next
  case False
  then show ?thesis unfolding withdraw_def by (simp add: commit_failure_snd)
qed

lemma update_details_state:
  "snd (update_details K e st i ppb tf signer signature) = st
   \<or> (\<exists>s. streams st i = Some s
         \<and> snd (update_details K e st i ppb tf signer signature)
             = st\<lparr> streams := (streams st)(i \<mapsto> s\<lparr> payment_per_block := ppb, timeframe := tf \<rparr>) \<rparr>)"
proof (cases "\<exists>v. fst (update_details K e st i ppb tf signer signature) = Ok v")
  case True
  then obtain a st' where "update_details K e st i ppb tf signer signature = (Ok a, st')"
    by (metis prod.collapse)
  then show ?thesis by (auto elim!: update_details_Ok_D)
next
  case False
  then show ?thesis unfolding update_details_def by (simp add: commit_failure_snd)
qed

lemma ids_dense_upd:
  "ids_dense st \<Longrightarrow> streams st i = Some s \<Longrightarrow>
     streams st' = (streams st)(i \<mapsto> s') \<Longrightarrow> latest_stream_id st' = latest_stream_id st \<Longrightarrow>
     ids_dense st'"
  by (auto simp: ids_dense_def)

lemma apply_call_dense: "ids_dense st \<Longrightarrow> ids_dense (apply_call K e st c)"
proof (cases c)
  case (Stream_to rcp ib tf ppb)
  then show "ids_dense st \<Longrightarrow> ?thesis" by (simp add: stream_to_dense)
next
  case (Refuel i amount)
  then show "ids_dense st \<Longrightarrow> ?thesis"
    using refuel_state[of e st i amount] by (auto intro: ids_dense_upd)
next
  case (Withdraw i)
  then show "ids_dense st \<Longrightarrow> ?thesis"
    using withdraw_state[of e st i] by (auto intro: ids_dense_upd)
next
  case (Refund i)
  then show "ids_dense st \<Longrightarrow> ?thesis"
    using refund_state[of e st i] by (auto intro: ids_dense_upd)
next
  case (Update_details i ppb tf signer signature)
  then show "ids_dense st \<Longrightarrow> ?thesis"
    using update_details_state[of K e st i ppb tf signer signature]
    by (auto intro: ids_dense_upd)
qed

lemma step_dense: "ids_dense (snd c) \<Longrightarrow> ids_dense (snd (step K self c ev))"
  by (cases c; cases ev) (auto simp: apply_call_dense)

lemma run_dense: "ids_dense (snd c) \<Longrightarrow> ids_dense (snd (run K self c evs))"
  unfolding run_def by (induction evs arbitrary: c) (auto simp: step_dense)

lemma deployed_dense: "ids_dense (deployed L)"
  by (simp add: ids_dense_def deployed_def)

text \<open>
  Claim C9, as the specification states it: \<open>stream-to\<close> fails on a timeframe that does
  not stop after it starts and on an initial balance of 0, and otherwise stores the new
  record, increments the counter and returns the identifier. The third wallet holds no
  STX; it calls \<open>stream-to\<close> with a timeframe from 0 to 5 and an initial balance of 5.
  \<open>stx-transfer?\<close> answers \<open>(err u1)\<close>, \<open>try!\<close> returns it: no record is stored and the
  counter is still 0.
\<close>

theorem stream_to_cases_counterexample:
  "start_block tf_0_5 < stop_block tf_0_5 \<and> (0 :: uint) < 5
   \<and> stream_to (call_env wallet_3 2) genesis wallet_2 5 tf_0_5 1 = (Err 1, genesis)
   \<and> streams genesis 0 = None \<and> latest_stream_id genesis = 0"
  by (simp add: call_defs err_defs arith_defs account_defs Let_def)

text \<open>
  Claim C9, amended: \<open>stream-to\<close> answers \<open>ERR_INVALID_TIMEFRAME\<close> when the stop block is
  not after the start block, and \<open>ERR_INVALID_AMOUNT\<close> when the timeframe is valid and
  the initial balance is 0. It succeeds exactly when, besides, the transfer of the
  initial balance from the caller to the contract succeeds and the counter can be
  incremented; it then stores the new record, with \<open>withdrawn-balance\<close> 0, under the
  current value of the counter, increments the counter by one and returns that value.
  When the transfer is refused, the call answers the error of the transfer and stores
  nothing.
  The counter of the deployed contract is 0, and after any sequence of transactions the
  identifiers in use are exactly those below the counter: identifiers are assigned
  sequentially from 0 and never reused.
\<close>

theorem stream_to_cases:
  "(\<not> start_block tf < stop_block tf \<longrightarrow>
      stream_to e st rcp ib tf ppb = (ERR_INVALID_TIMEFRAME, st))
   \<and> (start_block tf < stop_block tf \<and> ib = 0 \<longrightarrow>
        stream_to e st rcp ib tf ppb = (ERR_INVALID_AMOUNT, st))
   \<and> (stream_to e st rcp ib tf ppb = (Ok v, st') \<longleftrightarrow>
        start_block tf < stop_block tf \<and> 0 < ib
        \<and> unat (latest_stream_id st) + 1 < 2 ^ 128 \<and> v = latest_stream_id st
        \<and> (\<exists>L. stx_transfer (tx_sender e) ib (contract_caller e) (contract_principal e) (stx st)
                   = Inr L
                \<and> st' = st\<lparr> stx := L,
                     streams := (streams st)(latest_stream_id st \<mapsto>
                        \<lparr> sender = contract_caller e, recipient = rcp, balance = ib,
                          withdrawn_balance = 0, payment_per_block = ppb, timeframe = tf \<rparr>),
                     latest_stream_id := latest_stream_id st + 1 \<rparr>))
   \<and> latest_stream_id (deployed L0) = 0
   \<and> (\<forall>i. (streams (snd (run K self (h0, deployed L0) evs)) i \<noteq> None)
           = (i < latest_stream_id (snd (run K self (h0, deployed L0) evs))))
   \<and> (start_block tf < stop_block tf \<and> 0 < ib
        \<and> stx_transfer (tx_sender e) ib (contract_caller e) (contract_principal e) (stx st)
              = Inl c \<longrightarrow>
        stream_to e st rcp ib tf ppb = (Err c, st))"
proof (intro conjI impI)
  assume "\<not> start_block tf < stop_block tf"
  then show "stream_to e st rcp ib tf ppb = (ERR_INVALID_TIMEFRAME, st)"
    by (simp add: stream_to_def stream_to_body_def commit_def err_defs)
next
  assume "start_block tf < stop_block tf \<and> ib = 0"
  then show "stream_to e st rcp ib tf ppb = (ERR_INVALID_AMOUNT, st)"
    by (simp add: stream_to_def stream_to_body_def commit_def err_defs)
next
  show "stream_to e st rcp ib tf ppb = (Ok v, st') \<longleftrightarrow>
        start_block tf < stop_block tf \<and> 0 < ib
        \<and> unat (latest_stream_id st) + 1 < 2 ^ 128 \<and> v = latest_stream_id st
        \<and> (\<exists>L. stx_transfer (tx_sender e) ib (contract_caller e) (contract_principal e) (stx st)
                   = Inr L
                \<and> st' = st\<lparr> stx := L,
                     streams := (streams st)(latest_stream_id st \<mapsto>
                        \<lparr> sender = contract_caller e, recipient = rcp, balance = ib,
                          withdrawn_balance = 0, payment_per_block = ppb, timeframe = tf \<rparr>),
                     latest_stream_id := latest_stream_id st + 1 \<rparr>)"
    by (rule stream_to_Ok_iff)
next
  show "latest_stream_id (deployed L0) = 0" by (simp add: deployed_def)
next
  have "ids_dense (snd (run K self (h0, deployed L0) evs))"
    by (rule run_dense) (simp add: deployed_dense)
  then show "\<forall>i. (streams (snd (run K self (h0, deployed L0) evs)) i \<noteq> None)
           = (i < latest_stream_id (snd (run K self (h0, deployed L0) evs)))"
    by (simp add: ids_dense_def)
next
  assume "start_block tf < stop_block tf \<and> 0 < ib
        \<and> stx_transfer (tx_sender e) ib (contract_caller e) (contract_principal e) (stx st)
              = Inl c"
  then show "stream_to e st rcp ib tf ppb = (Err c, st)"
    by (simp add: stream_to_def stream_to_body_def commit_def err_defs)
qed

text \<open>
  On the deployed contract: a timeframe from 7 to 3, an initial balance of 0, and the
  call of scenario A, which returns identifier 0 and moves the counter to 1. After the
  transactions of scenario D identifier 0 is in use and identifier 1 is not.
\<close>

theorem stream_to_cases_witness:
  "stream_to (call_env wallet_1 2) genesis wallet_2 5 tf_7_3 1 = (ERR_INVALID_TIMEFRAME, genesis)
   \<and> stream_to (call_env wallet_1 2) genesis wallet_2 0 tf_0_5 1 = (ERR_INVALID_AMOUNT, genesis)
   \<and> stream_to (call_env wallet_1 2) genesis wallet_2 5 tf_0_5 1 = (Ok 0, scenario_A)
   \<and> stream_to (call_env wallet_3 2) genesis wallet_2 5 tf_0_5 1 = (Err 1, genesis)
   \<and> latest_stream_id genesis = 0 \<and> latest_stream_id scenario_A = 1
   \<and> streams scenario_D 0 \<noteq> None \<and> streams scenario_D 1 = None"
proof -
  note t = stream_to_cases[of _ "call_env wallet_1 2" genesis wallet_2 _ 1 _ _ "(\<lambda>p. 0)(wallet_1 := 100)"
      stub_crypto stream_contract 2 trace_D]
  have 1: "stream_to (call_env wallet_1 2) genesis wallet_2 5 tf_7_3 1
             = (ERR_INVALID_TIMEFRAME, genesis)"
    using t[of tf_7_3 5] by (simp add: tf_7_3_def)
  have 2: "stream_to (call_env wallet_1 2) genesis wallet_2 0 tf_0_5 1
             = (ERR_INVALID_AMOUNT, genesis)"
    using t[of tf_0_5 0] by (simp add: tf_0_5_def)
  have "stx_transfer (tx_sender (call_env wallet_1 2)) 5 (contract_caller (call_env wallet_1 2))
          (contract_principal (call_env wallet_1 2)) (stx genesis)
          = Inr ((\<lambda>p. 0)(wallet_1 := 95, stream_contract := 5))"
    by (simp add: stx_transfer_def account_defs)
  moreover have "scenario_A = genesis\<lparr> stx := (\<lambda>p. 0)(wallet_1 := 95, stream_contract := 5),
       streams := (streams genesis)(latest_stream_id genesis \<mapsto>
          \<lparr> sender = contract_caller (call_env wallet_1 2), recipient = wallet_2, balance = 5,
            withdrawn_balance = 0, payment_per_block = 1, timeframe = tf_0_5 \<rparr>),
       latest_stream_id := latest_stream_id genesis + 1 \<rparr>"
    by (simp add: scenario_A_def account_defs)
  moreover have "start_block tf_0_5 < stop_block tf_0_5" "(0 :: uint) < 5"
    "unat (latest_stream_id genesis) + 1 < 2 ^ 128" "latest_stream_id genesis = 0"
    by (simp_all add: account_defs)
  ultimately have 3: "stream_to (call_env wallet_1 2) genesis wallet_2 5 tf_0_5 1
                        = (Ok 0, scenario_A)"
    using t[of tf_0_5 5 0 scenario_A] by simp
  have r: "snd (run stub_crypto stream_contract (2, deployed ((\<lambda>p. 0)(wallet_1 := 100))) trace_D)
             = scenario_D"
    using trace_D_reaches by (simp add: genesis_def)
  from t[of tf_0_5 5 0 scenario_A]
  have "\<forall>i. (streams scenario_D i \<noteq> None) = (i < latest_stream_id scenario_D)"
    unfolding r by blast
  then have 4: "streams scenario_D 0 \<noteq> None" "streams scenario_D 1 = None"
    by (simp_all add: scenario_D_def)
  have "stx_transfer (tx_sender (call_env wallet_3 2)) 5 (contract_caller (call_env wallet_3 2))
          (contract_principal (call_env wallet_3 2)) (stx genesis) = Inl 1"
    by (simp add: stx_transfer_def account_defs)
  with stream_to_cases[of tf_0_5 "call_env wallet_3 2" genesis wallet_2 5 1 _ _ _ _ _ _ _ 1]
  have 5: "stream_to (call_env wallet_3 2) genesis wallet_2 5 tf_0_5 1 = (Err 1, genesis)"
    by (simp add: tf_0_5_def)
  from 1 2 3 4 5 show ?thesis by (simp add: scenario_A_def account_defs)
qed

section \<open>Withdrawn amounts against vested amounts\<close>

lemma calculate_block_delta_total:
  assumes "start_block tf < stop_block tf"
  shows "\<exists>d. calculate_block_delta h tf = Ok d \<and>
     unat d = (if h \<le> start_block tf then 0
               else if h < stop_block tf then unat h - unat (start_block tf)
               else unat (stop_block tf) - unat (start_block tf))"
proof (cases "h \<le> start_block tf")
  case True
  then show ?thesis by (simp add: calculate_block_delta_def)
next
  case False
  then have le: "start_block tf \<le> h" by simp
  show ?thesis
  proof (cases "h < stop_block tf")
    case True
    with False le show ?thesis
      by (simp add: calculate_block_delta_def uint_sub_def unat_sub)
  next
    case nlt: False
    from assms have "start_block tf \<le> stop_block tf" by simp
    with False nlt show ?thesis
      by (simp add: calculate_block_delta_def uint_sub_def unat_sub)
  qed
qed

lemma calculate_block_delta_unat:
  assumes "start_block tf < stop_block tf"
  obtains d where "calculate_block_delta h tf = Ok d"
    "unat d = (if h \<le> start_block tf then 0
               else if h < stop_block tf then unat h - unat (start_block tf)
               else unat (stop_block tf) - unat (start_block tf))"
  using calculate_block_delta_total[OF assms, of h] by blast

lemma calculate_block_delta_mono:
  assumes "start_block tf < stop_block tf" and "h \<le> h'"
    and "calculate_block_delta h tf = Ok d"
  obtains d' where "calculate_block_delta h' tf = Ok d'" "unat d \<le> unat d'"
proof -
  from assms(1) obtain d0 where d0: "calculate_block_delta h tf = Ok d0"
    "unat d0 = (if h \<le> start_block tf then 0
               else if h < stop_block tf then unat h - unat (start_block tf)
               else unat (stop_block tf) - unat (start_block tf))"
    by (rule calculate_block_delta_unat)
  from assms(1) obtain d' where d': "calculate_block_delta h' tf = Ok d'"
    "unat d' = (if h' \<le> start_block tf then 0
               else if h' < stop_block tf then unat h' - unat (start_block tf)
               else unat (stop_block tf) - unat (start_block tf))"
    by (rule calculate_block_delta_unat)
  from d0 assms(3) have "d0 = d" by simp
  with d0 d' assms(1,2) have "unat d \<le> unat d'"
    by (auto simp: word_le_nat_alt word_less_nat_alt split: if_splits)
  with d' show ?thesis by (auto intro: that)
qed

lemma vested_covers_withdrawn_mono:
  assumes "start_block (timeframe s) < stop_block (timeframe s)" and "h \<le> h'"
    and "vested_covers_withdrawn h s"
  shows "vested_covers_withdrawn h' s"
proof -
  from assms(3) obtain d where d: "calculate_block_delta h (timeframe s) = Ok d"
    "unat (withdrawn_balance s) \<le> unat d * unat (payment_per_block s)"
    by (auto simp: vested_covers_withdrawn_def split: response.splits)
  from assms(1,2) d(1) obtain d' where d': "calculate_block_delta h' (timeframe s) = Ok d'"
    "unat d \<le> unat d'"
    by (rule calculate_block_delta_mono)
  from d(2) d'(2) have "unat (withdrawn_balance s) \<le> unat d' * unat (payment_per_block s)"
    by (meson le_trans mult_le_mono1)
  with d'(1) show ?thesis by (simp add: vested_covers_withdrawn_def)
qed

lemma schedule_sound_mono: "h \<le> h' \<Longrightarrow> schedule_sound h st \<Longrightarrow> schedule_sound h' st"
  by (auto simp: schedule_sound_def intro: vested_covers_withdrawn_mono)

lemma vested_covers_withdrawn_balance:
  "vested_covers_withdrawn h (s\<lparr> balance := b \<rparr>) = vested_covers_withdrawn h s"
  by (simp add: vested_covers_withdrawn_def split: response.splits)

lemma schedule_sound_balance:
  assumes "schedule_sound h st" and "streams st i = Some s"
    and "streams st' = (streams st)(i \<mapsto> s\<lparr> balance := b \<rparr>)"
  shows "schedule_sound h st'"
  unfolding schedule_sound_def
proof (intro allI impI)
  fix j s' assume j: "streams st' j = Some s'"
  show "start_block (timeframe s') < stop_block (timeframe s') \<and> vested_covers_withdrawn h s'"
  proof (cases "j = i")
    case True
    with j assms(3) have "s' = s\<lparr> balance := b \<rparr>" by simp
    with assms(1,2) show ?thesis
      by (simp add: schedule_sound_def vested_covers_withdrawn_balance)
  next
    case False
    with j assms(3) have "streams st j = Some s'" by simp
    with assms(1) show ?thesis by (simp add: schedule_sound_def)
  qed
qed

lemma schedule_sound_withdrawn:
  assumes "schedule_sound h st" and "streams st i = Some s"
    and "calculate_block_delta h (timeframe s) = Ok d"
    and "uint_mul d (payment_per_block s) = Ok v"
    and "streams st' = (streams st)(i \<mapsto> s\<lparr> withdrawn_balance := v \<rparr>)"
  shows "schedule_sound h st'"
proof -
  from assms(4) have "unat v = unat d * unat (payment_per_block s)"
    by (auto simp: uint_mul_def unat_word_ariths split: if_splits)
  with assms(3) have "vested_covers_withdrawn h (s\<lparr> withdrawn_balance := v \<rparr>)"
    by (simp add: vested_covers_withdrawn_def)
  with assms(1,2,5) show ?thesis by (auto simp: schedule_sound_def)
qed

lemma schedule_sound_stream_to:
  assumes "schedule_sound (stacks_block_height e) st"
  shows "schedule_sound (stacks_block_height e) (snd (stream_to e st rcp ib tf ppb))"
proof (cases "\<exists>v. fst (stream_to e st rcp ib tf ppb) = Ok v")
  case True
  then obtain v st' where r: "stream_to e st rcp ib tf ppb = (Ok v, st')"
    by (metis prod.collapse)
  let ?s = "\<lparr> sender = contract_caller e, recipient = rcp, balance = ib,
              withdrawn_balance = 0, payment_per_block = ppb, timeframe = tf \<rparr>"
  from r have tf: "start_block tf < stop_block tf"
    and st': "streams st' = (streams st)(latest_stream_id st \<mapsto> ?s)"
    by (auto simp: stream_to_Ok_iff)
  from tf obtain d where "calculate_block_delta (stacks_block_height e) tf = Ok d"
    by (rule calculate_block_delta_unat)
  then have "vested_covers_withdrawn (stacks_block_height e) ?s"
    by (simp add: vested_covers_withdrawn_def)
  with assms tf st' have "schedule_sound (stacks_block_height e) st'"
    by (auto simp: schedule_sound_def)
  with r show ?thesis by simp
next
  case False
  then have "snd (stream_to e st rcp ib tf ppb) = st"
    unfolding stream_to_def by (simp add: commit_failure_snd)
  with assms show ?thesis by simp
qed

lemma schedule_sound_apply_call:
  assumes "schedule_sound (stacks_block_height e) st"
    and "\<forall>i p tf sg sig. c \<noteq> Update_details i p tf sg sig"
  shows "schedule_sound (stacks_block_height e) (apply_call K e st c)"
proof (cases c)
  case (Stream_to rcp ib tf ppb)
  with assms(1) show ?thesis by (simp add: schedule_sound_stream_to)
next
  case (Refuel i amount)
  with assms(1) show ?thesis
    using refuel_state[of e st i amount] by (auto intro: schedule_sound_balance)
next
  case (Withdraw i)
  with assms(1) show ?thesis
    using withdraw_state[of e st i] by (auto intro: schedule_sound_withdrawn)
next
  case (Refund i)
  with assms(1) show ?thesis
    using refund_state[of e st i] by (auto intro: schedule_sound_balance)
next
  case (Update_details i ppb tf signer signature)
  with assms(2) show ?thesis by simp
qed

lemma schedule_sound_step:
  assumes "schedule_sound (fst c) (snd c)" and "\<not> is_update_details ev"
  shows "schedule_sound (fst (step K self c ev)) (snd (step K self c ev))"
proof (cases ev)
  case (Transaction origin caller cl)
  obtain h st where c: "c = (h, st)" by (cases c)
  from assms(2) Transaction have "\<forall>i p tf sg sig. cl \<noteq> Update_details i p tf sg sig"
    by auto
  with assms(1) c Transaction show ?thesis
    using schedule_sound_apply_call[of "\<lparr> tx_sender = origin, contract_caller = caller,
                        stacks_block_height = h, contract_principal = self \<rparr>" st cl K]
    by simp
next
  case (Mine n)
  obtain h st where c: "c = (h, st)" by (cases c)
  have "h \<le> (if unat h + unat n < 2 ^ 128 then h + n else h)"
    by (auto simp: word_le_nat_alt unat_word_ariths)
  with assms(1) c Mine show ?thesis by (auto intro: schedule_sound_mono)
qed

lemma schedule_sound_run:
  assumes "schedule_sound (fst c) (snd c)" and "\<forall>ev \<in> set evs. \<not> is_update_details ev"
  shows "schedule_sound (fst (run K self c evs)) (snd (run K self c evs))"
  using assms unfolding run_def
  by (induction evs arbitrary: c) (auto simp: schedule_sound_step)

text \<open>
  Claim C4, as the specification states it: in every state reachable by \<open>stream-to\<close>,
  \<open>refuel\<close>, \<open>withdraw\<close>, \<open>refund\<close> and \<open>update-details\<close>, the withdrawn balance of a
  stream is at most the block delta times the rate, under the stream's current rate and
  timeframe. \<open>update-details\<close> installs any rate and timeframe the two parties agree
  on and looks at neither the height nor \<open>withdrawn-balance\<close>. In \<open>trace_cut\<close> the
  recipient withdraws 4 units at height 4 and the parties then lower the rate to 0: the
  withdrawn balance is 4, the vested amount under the new rate is 0.
\<close>

theorem withdrawn_covered_counterexample:
  "run stub_crypto stream_contract (2, genesis) trace_cut = (4, scenario_cut)
   \<and> streams scenario_cut 0 =
      Some \<lparr> sender = wallet_1, recipient = wallet_2, balance = 5,
             withdrawn_balance = 4, payment_per_block = 0, timeframe = tf_0_5 \<rparr>
   \<and> calculate_block_delta 4 tf_0_5 = Ok 4
   \<and> \<not> vested_covers_withdrawn 4 \<lparr> sender = wallet_1, recipient = wallet_2, balance = 5,
             withdrawn_balance = 4, payment_per_block = 0, timeframe = tf_0_5 \<rparr>"
  by (simp add: trace_cut_reaches)
     (simp add: scenario_cut_def vested_covers_withdrawn_def calculate_block_delta_def
        arith_defs tf_0_5_def Let_def)

text \<open>
  Claim C4, amended: for every stream state reachable from the deployed contract by any
  sequence of \<open>stream-to\<close>, \<open>refuel\<close>, \<open>withdraw\<close> and \<open>refund\<close> calls and passing
  blocks, with no \<open>update-details\<close> call, at every observation point the block delta
  of the stream's timeframe is computed without a runtime error and
  \<open>withdrawn-balance\<close> is at most the delta times \<open>payment-per-block\<close>.
\<close>

theorem withdrawn_covered_without_updates:
  assumes "\<forall>ev \<in> set evs. \<not> is_update_details ev"
    and "run K self (h0, deployed L0) evs = (h, st)"
    and "streams st i = Some s"
  shows "vested_covers_withdrawn h s"
proof -
  have "schedule_sound (fst (h0, deployed L0)) (snd (h0, deployed L0))"
    by (simp add: schedule_sound_def deployed_def)
  from schedule_sound_run[OF this assms(1), of K self] assms(2)
  have "schedule_sound h st" by simp
  with assms(3) show ?thesis by (simp add: schedule_sound_def)
qed

text \<open>
  After the transactions of scenario D, at height 4, the stream has 4 units withdrawn and
  4 units vested.
\<close>

theorem withdrawn_covered_without_updates_witness:
  "run stub_crypto stream_contract (2, genesis) trace_D = (4, scenario_D)
   \<and> streams scenario_D 0 =
        Some \<lparr> sender = wallet_1, recipient = wallet_2, balance = 5,
               withdrawn_balance = 4, payment_per_block = 1, timeframe = tf_0_5 \<rparr>
   \<and> vested_covers_withdrawn 4 \<lparr> sender = wallet_1, recipient = wallet_2, balance = 5,
               withdrawn_balance = 4, payment_per_block = 1, timeframe = tf_0_5 \<rparr>"
proof -
  have n: "\<forall>ev \<in> set trace_D. \<not> is_update_details ev" by (simp add: trace_D_def)
  have r: "run stub_crypto stream_contract (2, deployed ((\<lambda>p. 0)(wallet_1 := 100))) trace_D
             = (4, scenario_D)"
    using trace_D_reaches by (simp add: genesis_def)
  have s: "streams scenario_D 0 =
        Some \<lparr> sender = wallet_1, recipient = wallet_2, balance = 5,
               withdrawn_balance = 4, payment_per_block = 1, timeframe = tf_0_5 \<rparr>"
    by (simp add: scenario_D_def)
  from withdrawn_covered_without_updates[OF n r s] trace_D_reaches s show ?thesis by simp
qed

section \<open>The consensus serialisation is injective\<close>

lemma be_bytes_inj:
  fixes a b :: "'a::len word"
  assumes "be_bytes n a = be_bytes n b" and "LENGTH('a) \<le> 8 * n"
  shows "a = b"
proof (rule bit_word_eqI)
  fix k assume k: "k < LENGTH('a)"
  from assms(1) have "\<forall>i<n. (ucast (drop_bit (8 * i) a) :: byte) = ucast (drop_bit (8 * i) b)"
    by (auto simp: be_bytes_def)
  moreover have "k div 8 < n"
    using k assms(2) by (simp add: less_mult_imp_div_less mult.commute)
  ultimately have "(ucast (drop_bit (8 * (k div 8)) a) :: byte)
                     = ucast (drop_bit (8 * (k div 8)) b)"
    by blast
  then have "bit (ucast (drop_bit (8 * (k div 8)) a) :: byte) (k mod 8)
           = bit (ucast (drop_bit (8 * (k div 8)) b) :: byte) (k mod 8)"
    by simp
  then show "bit a k = bit b k"
    by (simp add: bit_ucast_iff bit_drop_bit_eq)
qed

lemma be_bytes_append_eq:
  fixes a b :: "'a::len word"
  assumes "LENGTH('a) \<le> 8 * n"
  shows "be_bytes n a @ r = be_bytes n b @ r' \<longleftrightarrow> a = b \<and> r = r'"
proof
  assume "be_bytes n a @ r = be_bytes n b @ r'"
  then have "be_bytes n a = be_bytes n b \<and> r = r'"
    by (simp add: be_bytes_length)
  with assms show "a = b \<and> r = r'" by (auto dest: be_bytes_inj)
qed simp

lemma uint_append_eq:
  "to_consensus_buff_uint a @ r = to_consensus_buff_uint b @ r' \<longleftrightarrow> a = b \<and> r = r'"
  by (simp add: to_consensus_buff_uint_def be_bytes_append_eq)

lemma uint_eq: "to_consensus_buff_uint a = to_consensus_buff_uint b \<longleftrightarrow> a = b"
  using uint_append_eq[of a "[]" b "[]"] by simp

lemma name_length_inj:
  assumes "length (m :: buff) \<le> 128" and "length (n :: buff) \<le> 128"
    and "(of_nat (length m) :: byte) = of_nat (length n)"
  shows "length m = length n"
proof -
  from assms(3) have "unat (of_nat (length m) :: byte) = unat (of_nat (length n) :: byte)"
    by simp
  with assms(1,2) show ?thesis by (simp add: unat_of_nat)
qed

lemma principal_append_eq:
  assumes "well_formed_principal p" and "well_formed_principal q"
  shows "to_consensus_buff_principal p @ r = to_consensus_buff_principal q @ r'
           \<longleftrightarrow> p = q \<and> r = r'"
proof (cases p; cases q)
  fix v h v' h' assume "p = Standard v h" "q = Standard v' h'"
  then show ?thesis by (simp add: be_bytes_append_eq)
next
  fix v h v' h' n' assume "p = Standard v h" "q = Contract v' h' n'"
  then show ?thesis by simp
next
  fix v h n v' h' assume "p = Contract v h n" "q = Standard v' h'"
  then show ?thesis by simp
next
  fix v h n v' h' n' assume pq: "p = Contract v h n" "q = Contract v' h' n'"
  with assms have l: "length n \<le> 128" "length n' \<le> 128" by simp_all
  show ?thesis
  proof
    assume "to_consensus_buff_principal p @ r = to_consensus_buff_principal q @ r'"
    with pq have e: "v = v'" "h = h'" "(of_nat (length n) :: byte) = of_nat (length n')"
      "n @ r = n' @ r'"
      by (simp_all add: be_bytes_append_eq)
    from l e(3) have "length n = length n'" by (rule name_length_inj)
    with e(4) have "n = n' \<and> r = r'" by simp
    with e pq show "p = q \<and> r = r'" by simp
  qed simp
qed

lemma timeframe_append_eq:
  "to_consensus_buff_timeframe t @ r = to_consensus_buff_timeframe t' @ r'
     \<longleftrightarrow> t = t' \<and> r = r'"
  by (auto simp: to_consensus_buff_timeframe_def uint_append_eq)

lemma timeframe_eq:
  "to_consensus_buff_timeframe t = to_consensus_buff_timeframe t' \<longleftrightarrow> t = t'"
  using timeframe_append_eq[of t "[]" t' "[]"] by simp

lemma stream_append_eq:
  assumes "well_formed_stream s" and "well_formed_stream s'"
  shows "to_consensus_buff_stream s @ r = to_consensus_buff_stream s' @ r'
           \<longleftrightarrow> s = s' \<and> r = r'"
proof
  assume "to_consensus_buff_stream s @ r = to_consensus_buff_stream s' @ r'"
  with assms show "s = s' \<and> r = r'"
    by (simp add: to_consensus_buff_stream_def uint_append_eq principal_append_eq
        timeframe_append_eq well_formed_stream_def)
qed simp

lemma hash_stream_msg_inj:
  assumes "well_formed_stream s" and "well_formed_stream s'"
  shows "hash_stream_msg s p t = hash_stream_msg s' p' t' \<longleftrightarrow> s = s' \<and> p = p' \<and> t = t'"
  using assms
  by (auto simp: hash_stream_msg_def stream_append_eq uint_append_eq timeframe_eq)


section \<open>What a consent signature is bound to\<close>

lemma scenario_twins_created:
  "run stub_crypto stream_contract (2, genesis)
     [Transaction wallet_1 wallet_1 (Stream_to wallet_2 5 tf_0_5 1),
      Transaction wallet_1 wallet_1 (Stream_to wallet_2 5 tf_0_5 1)] = (2, scenario_twins)"
  by (simp add: run_def scenario_twins_def call_defs err_defs arith_defs account_defs Let_def)

lemma hash_stream_Some:
  "streams st i = Some s \<Longrightarrow> hash_stream K st i p t = sha256 K (hash_stream_msg s p t)"
  by (simp add: hash_stream_def)

lemma hash_stream_same_record:
  "streams st i = streams st j \<Longrightarrow> hash_stream K st i p t = hash_stream K st j p t"
  by (simp add: hash_stream_def)

text \<open>
  Claim C2, as the specification states it: the consent digest binds a signature to one
  stream, and a signature produced for a different stream id fails with InvalidSignature.
  \<open>hash-stream\<close> uses its \<open>stream-id\<close> only to fetch the record; the identifier is not
  part of the hashed buffer. Streams 0 and 1 of \<open>scenario_twins\<close> hold equal records.
  The sender signs the proposal of rate 2 for stream 0, and the recipient submits that
  signature for stream 1: the update of stream 1 is applied. Lemma
  \<open>hash_stream_same_record\<close> shows the same for every hash function.
\<close>

theorem consent_signature_replay_counterexample:
  "streams scenario_twins 0 = streams scenario_twins 1
   \<and> twin_signature = stub_sign 1 (hash_stream stub_crypto scenario_twins 0 2 tf_0_5)
   \<and> length twin_signature = 65
   \<and> validate_signature stub_crypto (hash_stream stub_crypto scenario_twins 0 2 tf_0_5)
        twin_signature wallet_1
   \<and> fst (update_details stub_crypto (call_env wallet_2 4) scenario_twins 1 2 tf_0_5 wallet_1
        twin_signature) = Ok True"
proof -
  have e: "streams scenario_twins 0 = streams scenario_twins 1"
    by (simp add: scenario_twins_def)
  have v: "validate_signature stub_crypto (hash_stream stub_crypto scenario_twins 0 2 tf_0_5)
        twin_signature wallet_1"
    unfolding twin_signature_def by (rule stub_signature_wallet_1)
  then have v1: "validate_signature stub_crypto (hash_stream stub_crypto scenario_twins 1 2 tf_0_5)
        twin_signature wallet_1"
    by (simp add: hash_stream_same_record[OF e])
  have "fst (update_details stub_crypto (call_env wallet_2 4) scenario_twins 1 2 tf_0_5 wallet_1
        twin_signature) = Ok True"
    using v1 by (simp add: update_details_def update_details_body_def commit_def
        scenario_twins_def call_env_def)
  moreover have "length twin_signature = 65"
    by (simp add: twin_signature_def stub_sign_length stub_digest_length)
  ultimately show ?thesis using e v by (simp add: twin_signature_def)
qed

text \<open>
  Claim C2, amended: the consent digest binds a signature to the contents of one stream
  record and one proposal. \<open>update-details\<close> on an existing stream answers
  \<open>ERR_INVALID_SIGNATURE\<close> exactly when the signature does not recover to the signer over
  the hash of the stream's current stored record followed by the proposed rate and
  timeframe, and it never succeeds without such a signature. The hashed buffer
  determines the record and the proposal: two different proposals, or two different
  records, never produce the same buffer (for principals whose contract names have at
  most 128 bytes). The stream identifier is not part of the buffer: two identifiers under
  which the same record is stored have the same digest.
\<close>

theorem consent_digest_binds_record_and_proposal:
  assumes "streams st i = Some s"
  shows "(update_details K e st i p t signer signature = (ERR_INVALID_SIGNATURE, st)
            \<longleftrightarrow> \<not> validate_signature K (sha256 K (hash_stream_msg s p t)) signature signer)
       \<and> ((\<exists>v. fst (update_details K e st i p t signer signature) = Ok v) \<longrightarrow>
            validate_signature K (sha256 K (hash_stream_msg s p t)) signature signer)
       \<and> (well_formed_stream s \<and> well_formed_stream s' \<longrightarrow>
            (hash_stream_msg s p t = hash_stream_msg s' p' t' \<longleftrightarrow> s = s' \<and> p = p' \<and> t = t'))
       \<and> (streams st j = Some s \<longrightarrow> hash_stream K st j p t = hash_stream K st i p t)"
proof (intro conjI impI)
  show "update_details K e st i p t signer signature = (ERR_INVALID_SIGNATURE, st)
            \<longleftrightarrow> \<not> validate_signature K (sha256 K (hash_stream_msg s p t)) signature signer"
    using assms
    by (auto simp: update_details_def update_details_body_def commit_def err_defs
        hash_stream_Some)
next
  assume "\<exists>v. fst (update_details K e st i p t signer signature) = Ok v"
  then obtain v st' where "update_details K e st i p t signer signature = (Ok v, st')"
    by (metis prod.collapse)
  then have "validate_signature K (hash_stream K st i p t) signature signer"
    by (rule update_details_Ok_D)
  with assms show "validate_signature K (sha256 K (hash_stream_msg s p t)) signature signer"
    by (simp add: hash_stream_Some)
next
  assume "well_formed_stream s \<and> well_formed_stream s'"
  then show "hash_stream_msg s p t = hash_stream_msg s' p' t' \<longleftrightarrow> s = s' \<and> p = p' \<and> t = t'"
    by (simp add: hash_stream_msg_inj)
next
  assume "streams st j = Some s"
  with assms show "hash_stream K st j p t = hash_stream K st i p t"
    by (simp add: hash_stream_same_record)
qed


text \<open>
  On scenario A an empty signature is refused and the signature of scenario F is over the
  digest the theorem names; the proposals with stop block 4 and stop block 5 give
  different buffers; the twin streams share a digest.
\<close>

theorem consent_digest_binds_record_and_proposal_witness:
  "update_details stub_crypto (call_env wallet_2 4) scenario_A 0 1 tf_0_4 wallet_1 []
     = (ERR_INVALID_SIGNATURE, scenario_A)
   \<and> validate_signature stub_crypto
        (sha256 stub_crypto (hash_stream_msg \<lparr> sender = wallet_1, recipient = wallet_2,
           balance = 5, withdrawn_balance = 0, payment_per_block = 1, timeframe = tf_0_5 \<rparr>
           1 tf_0_4)) scenario_F_signature wallet_1
   \<and> hash_stream_msg \<lparr> sender = wallet_1, recipient = wallet_2,
           balance = 5, withdrawn_balance = 0, payment_per_block = 1, timeframe = tf_0_5 \<rparr>
           1 tf_0_4
       \<noteq> hash_stream_msg \<lparr> sender = wallet_1, recipient = wallet_2,
           balance = 5, withdrawn_balance = 0, payment_per_block = 1, timeframe = tf_0_5 \<rparr>
           1 tf_0_5
   \<and> hash_stream stub_crypto scenario_twins 1 2 tf_0_5
       = hash_stream stub_crypto scenario_twins 0 2 tf_0_5"
proof -
  let ?s = "\<lparr> sender = wallet_1, recipient = wallet_2,
           balance = 5, withdrawn_balance = 0, payment_per_block = 1, timeframe = tf_0_5 \<rparr>"
  note t = consent_digest_binds_record_and_proposal[OF scenario_A_stream, of stub_crypto "call_env wallet_2 4" 1 tf_0_4 wallet_1]
  have n: "\<not> validate_signature stub_crypto (sha256 stub_crypto (hash_stream_msg ?s 1 tf_0_4))
             [] wallet_1"
    by (simp add: validate_signature_def stub_crypto_def)
  with t[of "[]"]
  have 1: "update_details stub_crypto (call_env wallet_2 4) scenario_A 0 1 tf_0_4 wallet_1 []
     = (ERR_INVALID_SIGNATURE, scenario_A)" by blast
  have v: "validate_signature stub_crypto (hash_stream stub_crypto scenario_A 0 1 tf_0_4)
             scenario_F_signature wallet_1"
    unfolding scenario_F_signature_def by (rule stub_signature_wallet_1)
  have d: "dual_consent ?s (contract_caller (call_env wallet_2 4)) wallet_1"
    by (simp add: dual_consent_def call_env_def)
  have ok: "\<exists>v. fst (update_details stub_crypto (call_env wallet_2 4) scenario_A 0 1 tf_0_4
        wallet_1 scenario_F_signature) = Ok v"
    by (rule exI[of _ True]) (simp add: update_details_accepts[OF scenario_A_stream v d])
  with t[of scenario_F_signature]
  have 2: "validate_signature stub_crypto (sha256 stub_crypto (hash_stream_msg ?s 1 tf_0_4))
             scenario_F_signature wallet_1" by blast
  have w: "well_formed_stream ?s \<and> well_formed_stream ?s"
    by (simp add: well_formed_stream_def wallet_1_def wallet_2_def)
  have "tf_0_4 \<noteq> tf_0_5" by (simp add: tf_0_4_def tf_0_5_def)
  with t[of "[]" ?s 1 tf_0_5] w
  have 3: "hash_stream_msg ?s 1 tf_0_4 \<noteq> hash_stream_msg ?s 1 tf_0_5" by blast
  have s0: "streams scenario_twins 0 = Some ?s" and s1: "streams scenario_twins 1 = Some ?s"
    by (simp_all add: scenario_twins_def)
  from consent_digest_binds_record_and_proposal[OF s0, of stub_crypto _ 2 tf_0_5 _ _ _ _ _ 1] s1
  have 4: "hash_stream stub_crypto scenario_twins 1 2 tf_0_5
       = hash_stream stub_crypto scenario_twins 0 2 tf_0_5" by blast
  from 1 2 3 4 show ?thesis by simp
qed

section \<open>Calls that change the digest\<close>

lemma stx_transfer_nonzero: "stx_transfer cur a src dst L = Inr L' \<Longrightarrow> a \<noteq> 0"
  by (auto simp: stx_transfer_def split: if_splits)

lemma hash_stream_msg_changes:
  assumes "well_formed_stream s" and "sender s' = sender s" and "recipient s' = recipient s"
    and "s' \<noteq> s"
  shows "hash_stream_msg s' p t \<noteq> hash_stream_msg s p t"
proof -
  from assms(1-3) have "well_formed_stream s'" by (simp add: well_formed_stream_def)
  with assms(1,4) show ?thesis by (simp add: hash_stream_msg_inj)
qed

lemma refuel_changes_msg:
  assumes "streams st i = Some s" and "well_formed_stream s"
    and "refuel e st i a = (Ok v, st')"
  shows "\<exists>s'. streams st' i = Some s' \<and> hash_stream_msg s' p t \<noteq> hash_stream_msg s p t"
proof -
  from assms(3) obtain s0 L where r: "streams st i = Some s0" "0 < a"
    "st' = st\<lparr> stx := L, streams := (streams st)(i \<mapsto> s0\<lparr> balance := balance s0 + a \<rparr>) \<rparr>"
    by (rule refuel_Ok_D)
  with assms(1) have [simp]: "s0 = s" by simp
  from r(2) have "balance (s\<lparr> balance := balance s + a \<rparr>) \<noteq> balance s" by simp
  then have "s\<lparr> balance := balance s + a \<rparr> \<noteq> s" by metis
  with assms(2) have "hash_stream_msg (s\<lparr> balance := balance s + a \<rparr>) p t \<noteq> hash_stream_msg s p t"
    by (intro hash_stream_msg_changes) simp_all
  with r(3) show ?thesis by simp
qed

lemma withdraw_changes_msg:
  assumes "streams st i = Some s" and "well_formed_stream s"
    and "withdraw e st i = (Ok v, st')"
  shows "\<exists>s'. streams st' i = Some s' \<and> hash_stream_msg s' p t \<noteq> hash_stream_msg s p t"
proof -
  from assms(3) obtain s0 L where r: "streams st i = Some s0"
    "stx_transfer (contract_principal e) v (contract_principal e) (recipient s0) (stx st) = Inr L"
    "st' = st\<lparr> streams := (streams st)(i \<mapsto> s0\<lparr> withdrawn_balance := withdrawn_balance s0 + v \<rparr>),
               stx := L \<rparr>"
    by (rule withdraw_Ok_D)
  with assms(1) have [simp]: "s0 = s" by simp
  from r(2) have "v \<noteq> 0" by (rule stx_transfer_nonzero)
  then have "withdrawn_balance (s\<lparr> withdrawn_balance := withdrawn_balance s + v \<rparr>)
               \<noteq> withdrawn_balance s" by simp
  then have "s\<lparr> withdrawn_balance := withdrawn_balance s + v \<rparr> \<noteq> s" by metis
  with assms(2)
  have "hash_stream_msg (s\<lparr> withdrawn_balance := withdrawn_balance s + v \<rparr>) p t
          \<noteq> hash_stream_msg s p t"
    by (intro hash_stream_msg_changes) simp_all
  with r(3) show ?thesis by simp
qed

lemma refund_changes_msg:
  assumes "streams st i = Some s" and "well_formed_stream s"
    and "refund e st i = (Ok v, st')"
  shows "\<exists>s'. streams st' i = Some s' \<and> hash_stream_msg s' p t \<noteq> hash_stream_msg s p t"
proof -
  from assms(3) obtain s0 L where r: "streams st i = Some s0"
    "stx_transfer (contract_principal e) v (contract_principal e) (sender s0) (stx st) = Inr L"
    "st' = st\<lparr> streams := (streams st)(i \<mapsto> s0\<lparr> balance := balance s0 - v \<rparr>), stx := L \<rparr>"
    by (rule refund_Ok_D)
  with assms(1) have [simp]: "s0 = s" by simp
  from r(2) have "v \<noteq> 0" by (rule stx_transfer_nonzero)
  then have "balance (s\<lparr> balance := balance s - v \<rparr>) \<noteq> balance s" by simp
  then have "s\<lparr> balance := balance s - v \<rparr> \<noteq> s" by metis
  with assms(2) have "hash_stream_msg (s\<lparr> balance := balance s - v \<rparr>) p t \<noteq> hash_stream_msg s p t"
    by (intro hash_stream_msg_changes) simp_all
  with r(3) show ?thesis by simp
qed

lemma update_changes_msg:
  assumes "streams st i = Some s" and "well_formed_stream s"
    and "update_details K e st i p' t' signer signature = (Ok v, st')"
  shows "\<exists>s'. streams st' i = Some s'
           \<and> (hash_stream_msg s' p t = hash_stream_msg s p t
                \<longleftrightarrow> payment_per_block s = p' \<and> timeframe s = t')"
proof -
  from assms(3) obtain s0 where r: "streams st i = Some s0"
    "st' = st\<lparr> streams := (streams st)(i \<mapsto> s0\<lparr> payment_per_block := p', timeframe := t' \<rparr>) \<rparr>"
    by (rule update_details_Ok_D)
  with assms(1) have [simp]: "s0 = s" by simp
  let ?s' = "s\<lparr> payment_per_block := p', timeframe := t' \<rparr>"
  from assms(2) have "well_formed_stream ?s'" by (simp add: well_formed_stream_def)
  with assms(2) have "hash_stream_msg ?s' p t = hash_stream_msg s p t \<longleftrightarrow> ?s' = s"
    by (simp add: hash_stream_msg_inj)
  moreover have "?s' = s \<longleftrightarrow> payment_per_block s = p' \<and> timeframe s = t'"
    by (cases s) auto
  ultimately show ?thesis using r(2) by simp
qed

text \<open>
  Claim C10, amended: the consent digest is the hash of the serialisation of the entire
  current stream record, \<open>balance\<close> and \<open>withdrawn-balance\<close> included, followed by the
  proposed rate and timeframe. For a fixed proposal, two records that differ in any field
  give different hashed buffers. Every successful refuel, withdraw or refund changes the
  record, and so the buffer of a proposal signed before it; a successful update changes
  it exactly when it installs a rate or timeframe other than the stored ones. (Records
  are those whose contract names have at most 128 bytes.)
\<close>

theorem consent_digest_covers_record:
  assumes "streams st i = Some s" and "well_formed_stream s"
  shows "hash_stream K st i p t =
           sha256 K ((to_consensus_buff_stream s @ to_consensus_buff_uint p)
                       @ to_consensus_buff_timeframe t)
       \<and> (well_formed_stream s' \<and> s' \<noteq> s \<longrightarrow> hash_stream_msg s' p t \<noteq> hash_stream_msg s p t)
       \<and> (refuel e st i a = (Ok v, st') \<longrightarrow>
            (\<exists>s'. streams st' i = Some s' \<and> hash_stream_msg s' p t \<noteq> hash_stream_msg s p t))
       \<and> (withdraw e st i = (Ok v, st') \<longrightarrow>
            (\<exists>s'. streams st' i = Some s' \<and> hash_stream_msg s' p t \<noteq> hash_stream_msg s p t))
       \<and> (refund e st i = (Ok v, st') \<longrightarrow>
            (\<exists>s'. streams st' i = Some s' \<and> hash_stream_msg s' p t \<noteq> hash_stream_msg s p t))
       \<and> (update_details K e st i p' t' signer signature = (Ok b, st') \<longrightarrow>
            (\<exists>s'. streams st' i = Some s'
               \<and> (hash_stream_msg s' p t = hash_stream_msg s p t
                    \<longleftrightarrow> payment_per_block s = p' \<and> timeframe s = t')))"
proof (intro conjI impI)
  from assms(1) show "hash_stream K st i p t =
           sha256 K ((to_consensus_buff_stream s @ to_consensus_buff_uint p)
                       @ to_consensus_buff_timeframe t)"
    by (simp add: hash_stream_def hash_stream_msg_def)
next
  assume "well_formed_stream s' \<and> s' \<noteq> s"
  with assms(2) show "hash_stream_msg s' p t \<noteq> hash_stream_msg s p t"
    by (simp add: hash_stream_msg_inj)
next
  assume "refuel e st i a = (Ok v, st')"
  with assms show "\<exists>s'. streams st' i = Some s' \<and> hash_stream_msg s' p t \<noteq> hash_stream_msg s p t"
    by (rule refuel_changes_msg)
next
  assume "withdraw e st i = (Ok v, st')"
  with assms show "\<exists>s'. streams st' i = Some s' \<and> hash_stream_msg s' p t \<noteq> hash_stream_msg s p t"
    by (rule withdraw_changes_msg)
next
  assume "refund e st i = (Ok v, st')"
  with assms show "\<exists>s'. streams st' i = Some s' \<and> hash_stream_msg s' p t \<noteq> hash_stream_msg s p t"
    by (rule refund_changes_msg)
next
  assume "update_details K e st i p' t' signer signature = (Ok b, st')"
  with assms show "\<exists>s'. streams st' i = Some s'
               \<and> (hash_stream_msg s' p t = hash_stream_msg s p t
                    \<longleftrightarrow> payment_per_block s = p' \<and> timeframe s = t')"
    by (rule update_changes_msg)
qed

lemma stub_accepts_scenario_A:
  "update_details stub_crypto (call_env wallet_2 4) scenario_A 0 p t wallet_1
     (stub_sign 1 (hash_stream stub_crypto scenario_A 0 p t))
   = (Ok True, scenario_A\<lparr> streams := [0 \<mapsto> \<lparr> sender = wallet_1, recipient = wallet_2,
        balance = 5, withdrawn_balance = 0, payment_per_block = p, timeframe = t \<rparr>] \<rparr>)"
proof -
  have d: "dual_consent \<lparr> sender = wallet_1, recipient = wallet_2, balance = 5,
             withdrawn_balance = 0, payment_per_block = 1, timeframe = tf_0_5 \<rparr>
             (contract_caller (call_env wallet_2 4)) wallet_1"
    by (simp add: dual_consent_def call_env_def)
  show ?thesis
    by (simp add: update_details_accepts[OF scenario_A_stream stub_signature_wallet_1 d])
       (simp add: scenario_A_def)
qed

text \<open>
  Claim C10, as stated: any intervening refuel, withdraw, refund or update invalidates a
  previously signed consent signature. Over the record of scenario A the sender has
  signed the proposal of scenario F. An update that reinstalls the stored rate and
  timeframe leaves the record as it is; an update that raises the rate to 2, followed by
  one that lowers it to 1, restores the record. After either, the digest is what it was
  and the signature of scenario F is still accepted.
\<close>

theorem consent_survives_updates_counterexample:
  "validate_signature stub_crypto (hash_stream stub_crypto scenario_A 0 1 tf_0_4)
      scenario_F_signature wallet_1
   \<and> update_details stub_crypto (call_env wallet_2 4) scenario_A 0 1 tf_0_5 wallet_1
        reinstall_signature = (Ok True, scenario_A)
   \<and> update_details stub_crypto (call_env wallet_2 4) scenario_A 0 2 tf_0_5 wallet_1
        raise_signature = (Ok True, scenario_raised)
   \<and> update_details stub_crypto (call_env wallet_2 4) scenario_raised 0 1 tf_0_5 wallet_1
        lower_signature = (Ok True, scenario_A)
   \<and> fst (update_details stub_crypto (call_env wallet_2 4) scenario_A 0 1 tf_0_4 wallet_1
        scenario_F_signature) = Ok True"
proof -
  have v: "validate_signature stub_crypto (hash_stream stub_crypto scenario_A 0 1 tf_0_4)
      scenario_F_signature wallet_1"
    unfolding scenario_F_signature_def by (rule stub_signature_wallet_1)
  have 1: "update_details stub_crypto (call_env wallet_2 4) scenario_A 0 1 tf_0_5 wallet_1
        reinstall_signature = (Ok True, scenario_A)"
    unfolding reinstall_signature_def
    by (simp add: stub_accepts_scenario_A) (simp add: scenario_A_def)
  have 2: "update_details stub_crypto (call_env wallet_2 4) scenario_A 0 2 tf_0_5 wallet_1
        raise_signature = (Ok True, scenario_raised)"
    unfolding raise_signature_def
    by (simp add: stub_accepts_scenario_A) (simp add: scenario_A_def scenario_raised_def)
  have sr: "streams scenario_raised 0 = Some \<lparr> sender = wallet_1, recipient = wallet_2,
             balance = 5, withdrawn_balance = 0, payment_per_block = 2, timeframe = tf_0_5 \<rparr>"
    by (simp add: scenario_raised_def)
  have d: "dual_consent \<lparr> sender = wallet_1, recipient = wallet_2, balance = 5,
             withdrawn_balance = 0, payment_per_block = 2, timeframe = tf_0_5 \<rparr>
             (contract_caller (call_env wallet_2 4)) wallet_1"
    by (simp add: dual_consent_def call_env_def)
  have 3: "update_details stub_crypto (call_env wallet_2 4) scenario_raised 0 1 tf_0_5 wallet_1
        lower_signature = (Ok True, scenario_A)"
    unfolding lower_signature_def
    by (simp add: update_details_accepts[OF sr stub_signature_wallet_1 d])
       (simp add: scenario_A_def scenario_raised_def)
  have 4: "fst (update_details stub_crypto (call_env wallet_2 4) scenario_A 0 1 tf_0_4 wallet_1
        scenario_F_signature) = Ok True"
    unfolding scenario_F_signature_def by (simp add: stub_accepts_scenario_A)
  from v 1 2 3 4 show ?thesis by simp
qed

text \<open>
  From scenario A: the refuel of scenario B, the withdrawal of scenario D and the raise
  of the rate each change the buffer of the proposal of scenario F; so does the refund of
  scenario E.
\<close>

theorem consent_digest_covers_record_witness:
  "refuel (call_env wallet_1 3) scenario_A 0 5 = (Ok 5, scenario_B)
   \<and> hash_stream_msg \<lparr> sender = wallet_1, recipient = wallet_2, balance = 10,
        withdrawn_balance = 0, payment_per_block = 1, timeframe = tf_0_5 \<rparr> 1 tf_0_4
       \<noteq> hash_stream_msg \<lparr> sender = wallet_1, recipient = wallet_2, balance = 5,
        withdrawn_balance = 0, payment_per_block = 1, timeframe = tf_0_5 \<rparr> 1 tf_0_4
   \<and> withdraw (call_env wallet_2 4) scenario_A 0 = (Ok 4, scenario_D)
   \<and> hash_stream_msg \<lparr> sender = wallet_1, recipient = wallet_2, balance = 5,
        withdrawn_balance = 4, payment_per_block = 1, timeframe = tf_0_5 \<rparr> 1 tf_0_4
       \<noteq> hash_stream_msg \<lparr> sender = wallet_1, recipient = wallet_2, balance = 5,
        withdrawn_balance = 0, payment_per_block = 1, timeframe = tf_0_5 \<rparr> 1 tf_0_4
   \<and> refund (call_env wallet_1 6) scenario_E 0 = (Ok 5, scenario_E_refunded)
   \<and> hash_stream_msg \<lparr> sender = wallet_1, recipient = wallet_2, balance = 5,
        withdrawn_balance = 5, payment_per_block = 1, timeframe = tf_0_5 \<rparr> 1 tf_0_4
       \<noteq> hash_stream_msg \<lparr> sender = wallet_1, recipient = wallet_2, balance = 10,
        withdrawn_balance = 5, payment_per_block = 1, timeframe = tf_0_5 \<rparr> 1 tf_0_4
   \<and> update_details stub_crypto (call_env wallet_2 4) scenario_A 0 2 tf_0_5 wallet_1
        raise_signature = (Ok True, scenario_raised)
   \<and> hash_stream_msg \<lparr> sender = wallet_1, recipient = wallet_2, balance = 5,
        withdrawn_balance = 0, payment_per_block = 2, timeframe = tf_0_5 \<rparr> 1 tf_0_4
       \<noteq> hash_stream_msg \<lparr> sender = wallet_1, recipient = wallet_2, balance = 5,
        withdrawn_balance = 0, payment_per_block = 1, timeframe = tf_0_5 \<rparr> 1 tf_0_4"
proof -
  let ?a = "\<lparr> sender = wallet_1, recipient = wallet_2, balance = 5,
        withdrawn_balance = 0, payment_per_block = 1, timeframe = tf_0_5 \<rparr>"
  let ?e = "\<lparr> sender = wallet_1, recipient = wallet_2, balance = 10,
        withdrawn_balance = 5, payment_per_block = 1, timeframe = tf_0_5 \<rparr>"
  have wa: "well_formed_stream ?a" and we: "well_formed_stream ?e"
    by (simp_all add: well_formed_stream_def wallet_1_def wallet_2_def)
  have se: "streams scenario_E 0 = Some ?e" by (simp add: scenario_E_def)
  have u: "update_details stub_crypto (call_env wallet_2 4) scenario_A 0 2 tf_0_5 wallet_1
        raise_signature = (Ok True, scenario_raised)"
    unfolding raise_signature_def
    by (simp add: stub_accepts_scenario_A) (simp add: scenario_A_def scenario_raised_def)
  note ta = consent_digest_covers_record[OF scenario_A_stream wa, of _ 1 tf_0_4]
  from ta[of _ _ "call_env wallet_1 3" 5 5 scenario_B] scenario_B_refuelled
  have 1: "\<exists>s'. streams scenario_B 0 = Some s'
             \<and> hash_stream_msg s' 1 tf_0_4 \<noteq> hash_stream_msg ?a 1 tf_0_4" by blast
  from ta[of _ _ "call_env wallet_2 4" _ 4 scenario_D] scenario_D_withdrawn
  have 2: "\<exists>s'. streams scenario_D 0 = Some s'
             \<and> hash_stream_msg s' 1 tf_0_4 \<noteq> hash_stream_msg ?a 1 tf_0_4" by blast
  from consent_digest_covers_record[OF se we, of _ 1 tf_0_4 _ "call_env wallet_1 6" _ 5 scenario_E_refunded]
    scenario_E_refund
  have 3: "\<exists>s'. streams scenario_E_refunded 0 = Some s'
             \<and> hash_stream_msg s' 1 tf_0_4 \<noteq> hash_stream_msg ?e 1 tf_0_4" by blast
  from ta[of stub_crypto _ "call_env wallet_2 4" _ _ scenario_raised 2 tf_0_5 wallet_1
      raise_signature True] u
  have 4: "\<exists>s'. streams scenario_raised 0 = Some s'
             \<and> (hash_stream_msg s' 1 tf_0_4 = hash_stream_msg ?a 1 tf_0_4
                  \<longleftrightarrow> payment_per_block ?a = 2 \<and> timeframe ?a = tf_0_5)" by blast
  from 1 2 3 4 scenario_B_refuelled scenario_D_withdrawn scenario_E_refund u
  show ?thesis
    by (simp add: scenario_B_def scenario_D_def scenario_E_refunded_def scenario_raised_def)
qed

section \<open>The same mechanisms under any hash and signature primitives\<close>

text \<open>
  The scenarios above run with the stand-in primitives. What they show holds for every
  choice of the three primitives, given a signature that the signer's key produces:
  lowering the rate to 0 after a withdrawal leaves a withdrawn balance that nothing
  covers; reinstalling the stored rate and timeframe leaves every digest as it was; and a
  signature valid for one stream is accepted for another stream with an equal record.
\<close>

lemma rate_cut_breaks_cover:
  assumes "streams st i = Some s"
    and "validate_signature K (hash_stream K st i 0 (timeframe s)) signature signer"
    and "dual_consent s (contract_caller e) signer"
    and "withdrawn_balance s \<noteq> 0"
  shows "\<exists>st' s'. update_details K e st i 0 (timeframe s) signer signature = (Ok True, st')
           \<and> streams st' i = Some s' \<and> \<not> vested_covers_withdrawn h s'"
proof -
  let ?s' = "s\<lparr> payment_per_block := 0, timeframe := timeframe s \<rparr>"
  from assms(4) have "unat (withdrawn_balance s) \<noteq> 0" by (simp add: unat_eq_0)
  then have "\<not> vested_covers_withdrawn h ?s'"
    by (simp add: vested_covers_withdrawn_def split: response.splits)
  then show ?thesis
    using update_details_accepts[OF assms(1-3)] by simp
qed

lemma reinstall_keeps_digest:
  assumes "streams st i = Some s"
    and "update_details K e st i (payment_per_block s) (timeframe s) signer signature
           = (Ok v, st')"
  shows "hash_stream K st' i p t = hash_stream K st i p t"
proof -
  from assms(2) obtain s0 where r: "streams st i = Some s0"
    "st' = st\<lparr> streams := (streams st)(i \<mapsto>
              s0\<lparr> payment_per_block := payment_per_block s, timeframe := timeframe s \<rparr>) \<rparr>"
    by (rule update_details_Ok_D)
  with assms(1) have "s0 = s" by simp
  with r(2) have "streams st' i = Some s" by simp
  with assms(1) show ?thesis by (simp add: hash_stream_def)
qed

lemma replay_on_equal_record:
  assumes "streams st i = Some s" and "streams st j = Some s"
    and "validate_signature K (hash_stream K st i p t) signature signer"
    and "dual_consent s (contract_caller e) signer"
  shows "fst (update_details K e st j p t signer signature) = Ok True"
proof -
  from assms(1,2) have "hash_stream K st j p t = hash_stream K st i p t"
    by (simp add: hash_stream_def)
  with assms(3) have "validate_signature K (hash_stream K st j p t) signature signer" by simp
  from update_details_accepts[OF assms(2) this assms(4)] show ?thesis by simp
qed

end
